theory Spec2Isabelle
  imports Complex_Main
begin

section \<open>The ASC\<pi> engine 9.0 (ascpi\_engine\_v9.py)\<close>

text \<open>
  Python floats are modelled by the real numbers: rounding, infinities and NaN are outside
  the model, and \<open>math.sin\<close>, \<open>math.cos\<close>, \<open>math.tanh\<close>, \<open>math.exp\<close>,
  \<open>math.log\<close>, \<open>math.sqrt\<close> are the functions of analysis. A Python \<open>str\<close> is the
  list of its code points. Exceptions are values of the type \<open>error\<close>.
\<close>

subsection \<open>Constants\<close>

definition \<phi> :: real where "\<phi> = (1 + sqrt 5) / 2"
definition \<tau> :: real where "\<tau> = 2 * pi"
definition \<epsilon> :: real where "\<epsilon> = 1 / 10 ^ 12"

definition \<kappa>_MIN :: real where "\<kappa>_MIN = 1 / 100"
definition \<kappa>_MAX :: real where "\<kappa>_MAX = 10"
definition PHASE_MAX :: real where "PHASE_MAX = pi / 2"
definition ENERGY_\<delta> :: real where "ENERGY_\<delta> = 2 / 10"

record params =
  k_\<alpha> :: real
  k_\<beta> :: real
  k_\<gamma> :: real
  k_\<eta> :: real
  k_K :: real
  k_lambda :: real

definition KERNEL :: params where
  "KERNEL = \<lparr> k_\<alpha> = 15 / 100, k_\<beta> = 12 / 100, k_\<gamma> = 18 / 100, k_\<eta> = 25 / 100,
              k_K = 5 / 10, k_lambda = 2 / 100 \<rparr>"

subsection \<open>Python primitives\<close>

type_synonym str = "nat list"

datatype error = ValueError | ZeroDivisionError | IndexError | UnboundLocalError

definition str_of :: "string \<Rightarrow> str" where
  "str_of s = map of_char s"

text \<open>\<open>x % m\<close> on floats, for a positive modulus: the result has the sign of \<open>m\<close>.\<close>

definition pymod :: "real \<Rightarrow> real \<Rightarrow> real" where
  "pymod x m = x - m * of_int \<lfloor>x / m\<rfloor>"

text \<open>\<open>math.atan2(y, x)\<close>.\<close>

definition atan2 :: "real \<Rightarrow> real \<Rightarrow> real" where
  "atan2 y x =
     (if 0 < x then arctan (y / x)
      else if x < 0 then (if 0 \<le> y then arctan (y / x) + pi else arctan (y / x) - pi)
      else if 0 < y then pi / 2
      else if y < 0 then - (pi / 2)
      else 0)"

text \<open>\<open>math.log\<close> and \<open>math.sqrt\<close> raise \<open>ValueError\<close> outside their domain. Where
  the source takes the root of a sum of squares, which is never negative, the model uses
  \<open>sqrt\<close> directly.\<close>

definition py_log :: "real \<Rightarrow> error + real" where
  "py_log x = (if x \<le> 0 then Inl ValueError else Inr (ln x))"

definition py_sqrt :: "real \<Rightarrow> error + real" where
  "py_sqrt x = (if x < 0 then Inl ValueError else Inr (sqrt x))"

text \<open>Sequencing of computations that may raise.\<close>

definition bindE :: "error + 'a \<Rightarrow> ('a \<Rightarrow> error + 'b) \<Rightarrow> error + 'b" where
  "bindE m f = (case m of Inl e \<Rightarrow> Inl e | Inr v \<Rightarrow> f v)"

text \<open>\<open>deque(maxlen=k).append(x)\<close>: the oldest entry falls out when the buffer is full.\<close>

definition deque_append :: "nat \<Rightarrow> 'a list \<Rightarrow> 'a \<Rightarrow> 'a list" where
  "deque_append k xs x = (let ys = xs @ [x] in drop (length ys - k) ys)"

subsection \<open>The field state \<open>\<Psi>\<close>\<close>

record \<Psi> =
  \<Delta>\<Phi> :: real
  \<kappa> :: real
  \<theta> :: real
  N :: real
  C :: real
  t :: int
  src :: str

text \<open>\<open>\<Psi>._enforce\<close>: the bounds INV-2 and INV-4, applied in place.\<close>

definition enforce :: "\<Psi> \<Rightarrow> \<Psi>" where
  "enforce s = s\<lparr> \<theta> := pymod (\<theta> s) \<tau>,
                  \<kappa> := max \<kappa>_MIN (min \<kappa>_MAX \<bar>\<kappa> s\<bar>),
                  C := max 0 (min 1 (C s)),
                  N := max \<epsilon> (N s) \<rparr>"

text \<open>The constructor \<open>\<Psi>(...)\<close>: \<open>__post_init__\<close> calls \<open>_enforce\<close>.\<close>

definition mk\<Psi> :: "real \<Rightarrow> real \<Rightarrow> real \<Rightarrow> real \<Rightarrow> real \<Rightarrow> int \<Rightarrow> str \<Rightarrow> \<Psi>" where
  "mk\<Psi> d k th n c i sr =
     enforce \<lparr> \<Delta>\<Phi> = d, \<kappa> = k, \<theta> = th, N = n, C = c, t = i, src = sr \<rparr>"

text \<open>\<open>\<Psi>(src=src)\<close>: every other field at its dataclass default.\<close>

definition default\<Psi> :: "str \<Rightarrow> \<Psi>" where
  "default\<Psi> sr = mk\<Psi> 0 1 0 1 (1 / 2) 0 sr"

definition vec :: "\<Psi> \<Rightarrow> real \<times> real \<times> real \<times> real \<times> real" where
  "vec s = (\<Delta>\<Phi> s, \<kappa> s, \<theta> s, N s, C s)"

definition copy :: "\<Psi> \<Rightarrow> \<Psi>" where
  "copy s = mk\<Psi> (\<Delta>\<Phi> s) (\<kappa> s) (\<theta> s) (N s) (C s) (t s) (src s)"

definition dist :: "\<Psi> \<Rightarrow> \<Psi> \<Rightarrow> error + real" where
  "dist s s2 =
     bindE (py_log (\<kappa> s + \<epsilon>)) (\<lambda>lk1.
     bindE (py_log (\<kappa> s2 + \<epsilon>)) (\<lambda>lk2.
     bindE (py_log (N s + \<epsilon>)) (\<lambda>ln1.
     bindE (py_log (N s2 + \<epsilon>)) (\<lambda>ln2.
       let d\<phi> = (\<Delta>\<Phi> s - \<Delta>\<Phi> s2) ^ 2;
           dk = (lk1 - lk2) ^ 2;
           d\<theta> = (min \<bar>\<theta> s - \<theta> s2\<bar> (\<tau> - \<bar>\<theta> s - \<theta> s2\<bar>)) ^ 2 / pi ^ 2;
           dN = (ln1 - ln2) ^ 2
       in Inr (sqrt (d\<phi> + dk + d\<theta> + dN))))))"

definition inner :: "\<Psi> \<Rightarrow> \<Psi> \<Rightarrow> error + real" where
  "inner s s2 =
     (let phase = cos (\<theta> s - \<theta> s2);
          kappa = 1 - \<bar>\<kappa> s - \<kappa> s2\<bar> / max (max (\<kappa> s) (\<kappa> s2)) \<epsilon>
      in bindE (py_sqrt (N s * N s2)) (\<lambda>r. Inr (phase * kappa * r)))"

text \<open>\<open>\<Psi>.blend\<close>; the code point 8853 is the circled plus of the source label.\<close>

definition blend :: "\<Psi> \<Rightarrow> \<Psi> \<Rightarrow> real \<Rightarrow> \<Psi>" where
  "blend s s2 a =
     (let b = 1 - a;
          sin_\<theta> = a * sin (\<theta> s) + b * sin (\<theta> s2);
          cos_\<theta> = a * cos (\<theta> s) + b * cos (\<theta> s2)
      in enforce (mk\<Psi> (a * \<Delta>\<Phi> s + b * \<Delta>\<Phi> s2)
                      (a * \<kappa> s + b * \<kappa> s2)
                      (pymod (atan2 sin_\<theta> cos_\<theta>) \<tau>)
                      (a * N s + b * N s2)
                      (max (C s) (C s2))
                      (max (t s) (t s2) + 1)
                      (take 8 (src s @ [8853] @ src s2))))"

subsection \<open>The unified tensor kernel\<close>

record kernel =
  p :: params
  n_calls :: nat

text \<open>\<open>UnifiedTensorKernel.__call__\<close>: returns the kernel with its call counter advanced
  and the new field state.\<close>

definition kernel_call :: "kernel \<Rightarrow> \<Psi> \<Rightarrow> \<Psi> \<Rightarrow> \<Psi> \<Rightarrow> \<Psi> option \<Rightarrow> real \<Rightarrow> kernel \<times> \<Psi>" where
  "kernel_call ker \<psi> A M_inf W grad_C =
     (let target0 = blend A M_inf (6 / 10);
          target = (case W of None \<Rightarrow> target0 | Some w \<Rightarrow> blend target0 w (85 / 100));
          new_\<kappa>1 = \<kappa> \<psi> - k_\<alpha> (p ker) * (\<kappa> \<psi> - \<kappa> target);
          new_N1 = N \<psi> + k_\<beta> (p ker) * C \<psi>;
          new_\<Delta>\<Phi>1 = (if C \<psi> > 6 / 10 then \<Delta>\<Phi> \<psi> * (1 - k_\<gamma> (p ker) * (C \<psi>) ^ 2) else \<Delta>\<Phi> \<psi>);
          new_\<Delta>\<Phi>2 = new_\<Delta>\<Phi>1 + k_\<eta> (p ker) * (\<Delta>\<Phi> M_inf - new_\<Delta>\<Phi>1);
          new_\<kappa>2 = new_\<kappa>1 + k_\<eta> (p ker) * (\<kappa> M_inf - new_\<kappa>1);
          new_N = new_N1 + k_\<eta> (p ker) * (N M_inf - new_N1);
          \<Delta>\<theta>0 = \<theta> target - \<theta> \<psi>;
          \<Delta>\<theta> = (if \<Delta>\<theta>0 > pi then \<Delta>\<theta>0 - \<tau> else if \<Delta>\<theta>0 < - pi then \<Delta>\<theta>0 + \<tau> else \<Delta>\<theta>0);
          phase_shift0 = k_K (p ker) * sin \<Delta>\<theta>;
          phase_shift = max (- PHASE_MAX) (min PHASE_MAX phase_shift0);
          new_\<theta> = pymod (\<theta> \<psi> + phase_shift) \<tau>;
          new_\<kappa>3 = new_\<kappa>2 - grad_C * (15 / 100);
          new_\<Delta>\<Phi>3 = new_\<Delta>\<Phi>2 - grad_C * (8 / 100);
          merge_rate = (1 / 10) * C target;
          new_\<Delta>\<Phi> = (1 - merge_rate) * new_\<Delta>\<Phi>3 + merge_rate * \<Delta>\<Phi> target;
          new_\<kappa> = (1 - merge_rate) * new_\<kappa>3 + merge_rate * \<kappa> target
      in (ker\<lparr> n_calls := n_calls ker + 1 \<rparr>,
          enforce (mk\<Psi> new_\<Delta>\<Phi> (max \<kappa>_MIN (min \<kappa>_MAX new_\<kappa>)) new_\<theta> (max \<epsilon> new_N)
                     (C \<psi>) (t \<psi> + 1) (src \<psi>))))"

subsection \<open>The awareness field\<close>

record AwarenessField =
  aw_field :: \<Psi>
  aw_C :: "real list"
  aw_\<kappa> :: "real list"
  aw_div :: "real list"
  aw_align :: "real list"

definition AwarenessField_init :: AwarenessField where
  "AwarenessField_init =
     \<lparr> aw_field = mk\<Psi> (5 / 100) (2 / 10) 0 (1 / 10) (1 / 10) 0 [936, 95, 97],
       aw_C = [], aw_\<kappa> = [], aw_div = [], aw_align = [] \<rparr>"

text \<open>\<open>math.copysign(x, y)\<close>, without signed zeros.\<close>

definition copysign :: "real \<Rightarrow> real \<Rightarrow> real" where
  "copysign x y = (if y < 0 then - \<bar>x\<bar> else \<bar>x\<bar>)"

definition trend :: "real list \<Rightarrow> real" where
  "trend buf = (last buf - hd buf) / real (length buf)"

definition b2n :: "bool \<Rightarrow> nat" where
  "b2n b = (if b then 1 else 0)"

text \<open>\<open>AwarenessField.evolve\<close>: the new awareness field and the phase-stabilised
  copy of \<open>\<psi>\<close>.\<close>

definition evolve :: "AwarenessField \<Rightarrow> \<Psi> \<Rightarrow> \<Psi> \<Rightarrow> \<Psi> option \<Rightarrow> error + (AwarenessField \<times> \<Psi>)" where
  "evolve aw \<psi> M_inf W =
     bindE (dist \<psi> M_inf) (\<lambda>d.
     bindE (inner \<psi> M_inf) (\<lambda>al.
       let bC = deque_append 20 (aw_C aw) (C \<psi>);
           b\<kappa> = deque_append 20 (aw_\<kappa> aw) (\<kappa> \<psi>);
           bdiv = deque_append 20 (aw_div aw) d;
           balign = deque_append 20 (aw_align aw) al;
           n = length bC;
           C_trend = (if n \<ge> 3 then trend bC else 0);
           \<kappa>_trend = (if n \<ge> 3 then trend b\<kappa> else 0);
           div_trend = (if n \<ge> 3 then trend bdiv else 0);
           align_trend = (if n \<ge> 3 then trend balign else 0);
           drift = (div_trend > 1 / 100);
           f0 = aw_field aw;
           d\<phi>1 = (9 / 10) * \<Delta>\<Phi> f0 + (1 / 10) * (if drift then 5 / 10 else - (2 / 10));
           d\<phi>2 = max (- 1) (min 1 d\<phi>1);
           stability = b2n (C_trend \<ge> 0) + b2n (\<kappa>_trend \<le> 0) + b2n (div_trend \<le> 0);
           \<kappa>1 = \<kappa> f0 * (if stability \<ge> 2 then 95 / 100 else 102 / 100);
           \<Delta>\<theta>0 = \<theta> \<psi> - \<theta> f0;
           \<Delta>\<theta> = (if \<bar>\<Delta>\<theta>0\<bar> > pi then \<Delta>\<theta>0 - copysign \<tau> \<Delta>\<theta>0 else \<Delta>\<theta>0);
           \<theta>1 = pymod (\<theta> f0 + (3 / 10) * \<Delta>\<theta>) \<tau>;
           criteria_met = b2n (C_trend \<ge> - (1 / 100)) + b2n (\<kappa>_trend \<le> 1 / 100)
                          + b2n (div_trend \<le> 1 / 100) + b2n (align_trend \<ge> - (1 / 100));
           N1 = (if criteria_met \<ge> 3 then min 1 (N f0 * (102 / 100) + 1 / 100)
                 else if criteria_met \<le> 1 then max (1 / 100) (N f0 * (98 / 100))
                 else N f0);
           C1 = (if criteria_met \<ge> 3 then min 1 (C f0 + 15 / 1000)
                 else if criteria_met \<le> 1 then max (1 / 100) (C f0 - 5 / 1000)
                 else C f0);
           f1 = f0\<lparr> \<Delta>\<Phi> := d\<phi>2, \<kappa> := \<kappa>1, \<theta> := \<theta>1, N := N1, C := C1 \<rparr>;
           f2 = (case W of None \<Rightarrow> f1 | Some w \<Rightarrow> blend f1 w (9 / 10));
           f3 = enforce f2;
           stabilized0 = copy \<psi>;
           stabilized =
             (if C f3 > 3 / 10
              then stabilized0\<lparr> \<theta> := pymod (\<theta> stabilized0
                                     + (1 / 10) * C f3 * sin (\<theta> M_inf - \<theta> \<psi>)) \<tau> \<rparr>
              else stabilized0)
       in Inr (aw\<lparr> aw_field := f3, aw_C := bC, aw_\<kappa> := b\<kappa>, aw_div := bdiv,
                  aw_align := balign \<rparr>, stabilized)))"

definition level :: "AwarenessField \<Rightarrow> string" where
  "level aw =
     (let c = C (aw_field aw)
      in if c < 2 / 10 then ''dormant''
         else if c < 4 / 10 then ''emerging''
         else if c < 6 / 10 then ''aware''
         else if c < 8 / 10 then ''conscious''
         else ''fully_conscious'')"

subsection \<open>The memory field\<close>

record MemoryField =
  M_inf :: \<Psi>
  history :: "\<Psi> list"
  m_C_floor :: real
  limit_cycle :: "\<Psi> option"

definition MemoryField_init :: MemoryField where
  "MemoryField_init =
     \<lparr> M_inf = mk\<Psi> 0 (5 / 10) 0 (5 / 10) (5 / 10) 0 [77, 8734],
       history = [], m_C_floor = 0, limit_cycle = None \<rparr>"

text \<open>\<open>max(h.C for h in recent)\<close> over a non-empty list.\<close>

definition max_list :: "real list \<Rightarrow> real" where
  "max_list xs = fold max (tl xs) (hd xs)"

text \<open>\<open>MemoryField._detect_limit_cycle\<close>, on the history after the append; the result
  is the new value of \<open>_limit_cycle\<close>.\<close>

definition detect_limit_cycle :: "\<Psi> list \<Rightarrow> \<Psi> option \<Rightarrow> \<Psi> option" where
  "detect_limit_cycle hist lc =
     (if length hist < 10 then lc
      else
        let recent = drop (length hist - 10) hist;
            \<theta>s = map \<theta> recent;
            deltas = map (\<lambda>i. \<bar>\<theta>s ! (i + 1) - \<theta>s ! i\<bar>) [0 ..< length \<theta>s - 1]
        in if list_all (\<lambda>d. d < 3 / 10) deltas
           then
             let sin_s = sum_list (map (\<lambda>h. sin (\<theta> h)) recent);
                 cos_s = sum_list (map (\<lambda>h. cos (\<theta> h)) recent);
                 avg_\<theta> = pymod (atan2 sin_s cos_s) \<tau>;
                 avg_\<kappa> = sum_list (map \<kappa> recent) / real (length recent)
             in Some (mk\<Psi> (sum_list (map \<Delta>\<Phi> recent) / real (length recent))
                           avg_\<kappa> avg_\<theta>
                           (sum_list (map N recent) / real (length recent))
                           (max_list (map C recent)) 0 (str_of ''cycle''))
           else lc)"

text \<open>The Kuramoto order parameter of a phase history.\<close>

definition order_parameter :: "\<Psi> list \<Rightarrow> real" where
  "order_parameter hist =
     (let phases = map \<theta> hist;
          sin_s = sum_list (map sin phases);
          cos_s = sum_list (map cos phases)
      in sqrt (sin_s ^ 2 + cos_s ^ 2) / real (length phases))"

text \<open>The coherence update of \<open>MemoryField.absorb\<close>, with the coherence floor of INV-1:
  the new floor and the memory state with its new coherence.\<close>

definition update_coherence :: "\<Psi> list \<Rightarrow> real \<Rightarrow> \<Psi> \<Rightarrow> real \<times> \<Psi>" where
  "update_coherence hist cfloor M =
     (if length hist \<ge> 3
      then
        let r = order_parameter hist;
            fl = max (cfloor - 1 / 1000) (r - 5 / 100)
        in (fl, M\<lparr> C := max (max r fl) (C M * (99 / 100)) \<rparr>)
      else (cfloor, M))"

text \<open>\<open>MemoryField.absorb\<close>.\<close>

definition absorb :: "MemoryField \<Rightarrow> \<Psi> \<Rightarrow> real \<Rightarrow> MemoryField" where
  "absorb mem \<psi> rate =
     (let weight = tanh (C \<psi> * 2) * rate;
          M = M_inf mem;
          sin_b = (1 - weight) * sin (\<theta> M) + weight * sin (\<theta> \<psi>);
          cos_b = (1 - weight) * cos (\<theta> M) + weight * cos (\<theta> \<psi>);
          M1 = M\<lparr> \<Delta>\<Phi> := (1 - weight) * \<Delta>\<Phi> M + weight * \<Delta>\<Phi> \<psi> * (9 / 10),
                  \<kappa> := (1 - weight) * \<kappa> M + weight * \<kappa> \<psi> * (95 / 100),
                  \<theta> := pymod (atan2 sin_b cos_b) \<tau>,
                  N := (1 - weight) * N M + weight * N \<psi> \<rparr>;
          hist = deque_append 100 (history mem) (copy M1);
          uc = update_coherence hist (m_C_floor mem) M1;
          lc = detect_limit_cycle hist (limit_cycle mem)
      in mem\<lparr> M_inf := enforce (snd uc), history := hist, m_C_floor := fst uc,
               limit_cycle := lc \<rparr>)"

text \<open>The adaptive softmax on inverse curvature used by \<open>fuse\<close>, \<open>compute\<close> and
  \<open>project\<close>.\<close>

definition softmax_inv :: "real list \<Rightarrow> real list" where
  "softmax_inv \<kappa>s =
     (let inv_\<kappa> = map (\<lambda>k. 1 / max k \<epsilon>) \<kappa>s;
          exp_w = map exp inv_\<kappa>;
          total = sum_list exp_w
      in map (\<lambda>w. w / total) exp_w)"

text \<open>\<open>MemoryField.fuse\<close>.\<close>

definition fuse :: "MemoryField \<Rightarrow> \<Psi> list \<Rightarrow> MemoryField" where
  "fuse mem sources =
     (if sources = [] then mem
      else fold (\<lambda>(w, s) m. absorb m s (w * (3 / 10)))
                (zip (softmax_inv (map \<kappa> sources)) sources) mem)"

text \<open>\<open>MemoryField.attractor\<close>.\<close>

definition attractor :: "MemoryField \<Rightarrow> \<Psi>" where
  "attractor mem =
     (case limit_cycle mem of
        Some lc \<Rightarrow> if C lc > C (M_inf mem) then copy lc else copy (M_inf mem)
      | None \<Rightarrow> copy (M_inf mem))"

subsection \<open>The coherence force\<close>

record CoherenceForce =
  C_prev :: real

definition CoherenceForce_init :: CoherenceForce where
  "CoherenceForce_init = \<lparr> C_prev = 5 / 10 \<rparr>"

text \<open>\<open>CoherenceForce.compute\<close>; the dictionary is the list of its items in insertion
  order. Returns the updated object, \<open>grad_C\<close> and \<open>C_fused\<close>.\<close>

definition compute :: "CoherenceForce \<Rightarrow> (string \<times> real \<times> real) list \<Rightarrow> CoherenceForce \<times> real \<times> real" where
  "compute cf coherences =
     (if coherences = [] then (cf, 0, C_prev cf)
      else
        let weights = softmax_inv (map (\<lambda>(_, _, k). k) coherences);
            C_fused = sum_list (map (\<lambda>(w, _, c, _). w * c) (zip weights coherences));
            grad_C = C_fused - C_prev cf
        in (cf\<lparr> C_prev := C_fused \<rparr>, grad_C, C_fused))"

subsection \<open>The world curvature\<close>

record WorldCurvature =
  sources :: "(str \<times> \<Psi>) list"
  w_field :: "\<Psi> option"

definition WorldCurvature_init :: WorldCurvature where
  "WorldCurvature_init = \<lparr> sources = [], w_field = None \<rparr>"

text \<open>\<open>d[k] = v\<close> on an insertion-ordered dictionary.\<close>

fun dict_set :: "('k \<times> 'v) list \<Rightarrow> 'k \<Rightarrow> 'v \<Rightarrow> ('k \<times> 'v) list" where
  "dict_set [] k v = [(k, v)]"
| "dict_set ((k', v') # kvs) k v =
     (if k' = k then (k, v) # kvs else (k', v') # dict_set kvs k v)"

text \<open>\<open>WorldCurvature._update\<close>: the new value of \<open>field\<close>.\<close>

definition world_update :: "(str \<times> \<Psi>) list \<Rightarrow> \<Psi> option" where
  "world_update srcs =
     (if srcs = [] then None
      else
        let flds = map snd srcs;
            n = real (length flds);
            sin_s = sum_list (map (\<lambda>f. sin (\<theta> f)) flds);
            cos_s = sum_list (map (\<lambda>f. cos (\<theta> f)) flds)
        in Some (mk\<Psi> (sum_list (map \<Delta>\<Phi> flds) / n)
                      (sum_list (map \<kappa> flds) / n)
                      (pymod (atan2 sin_s cos_s) \<tau>)
                      (sum_list (map N flds))
                      (sqrt (sin_s ^ 2 + cos_s ^ 2) / n) 0 [87]))"

definition world_add :: "WorldCurvature \<Rightarrow> str \<Rightarrow> \<Psi> \<Rightarrow> WorldCurvature" where
  "world_add w sid \<psi> =
     (let srcs = dict_set (sources w) sid \<psi>
      in w\<lparr> sources := srcs, w_field := world_update srcs \<rparr>)"

subsection \<open>The encoder\<close>

text \<open>
  \<open>str.isspace\<close> and \<open>unicodedata.category\<close> belong to the Python library, not to
  the repository: the encoder takes them as the parameters \<open>sp\<close> and \<open>cat\<close>.
\<close>

definition ZWJ :: nat where "ZWJ = 0x200D"
definition RI_lo :: nat where "RI_lo = 0x1F1E6"
definition RI_hi :: nat where "RI_hi = 0x1F1FF"

definition \<kappa>_MAP :: "char \<Rightarrow> real" where
  "\<kappa>_MAP c =
     (if c = CHR ''L'' then 3 / 10
      else if c = CHR ''M'' then 1 / 10
      else if c = CHR ''N'' then 4 / 10
      else if c = CHR ''P'' then 5 / 10
      else if c = CHR ''S'' then 6 / 10
      else if c = CHR ''Z'' then 5 / 100
      else if c = CHR ''C'' then 2 / 100
      else 3 / 10)"

text \<open>The inner \<open>while\<close> of \<open>Encoder.graphemes\<close>: extends the cluster \<open>current\<close> with
  joiner continuations, a paired regional indicator and combining marks, and returns it
  with the characters left.\<close>

fun extend_cluster :: "(nat \<Rightarrow> string) \<Rightarrow> str \<Rightarrow> str \<Rightarrow> str \<times> str" where
  "extend_cluster cat current [] = (current, [])"
| "extend_cluster cat current [nc] =
     (if nc = ZWJ then (current @ [nc], [])
      else if RI_lo \<le> (case current of [] \<Rightarrow> 0 | c0 # _ \<Rightarrow> c0)
              \<and> (case current of [] \<Rightarrow> 0 | c0 # _ \<Rightarrow> c0) \<le> RI_hi
              \<and> RI_lo \<le> nc \<and> nc \<le> RI_hi \<and> length current = 1
           then (current @ [nc], [])
      else if cat nc \<in> {''Mn'', ''Mc'', ''Me''} then extend_cluster cat (current @ [nc]) []
      else (current, [nc]))"
| "extend_cluster cat current (nc # x # rest) =
     (if nc = ZWJ then extend_cluster cat (current @ [nc, x]) rest
      else if RI_lo \<le> (case current of [] \<Rightarrow> 0 | c0 # _ \<Rightarrow> c0)
              \<and> (case current of [] \<Rightarrow> 0 | c0 # _ \<Rightarrow> c0) \<le> RI_hi
              \<and> RI_lo \<le> nc \<and> nc \<le> RI_hi \<and> length current = 1
           then (current @ [nc], x # rest)
      else if cat nc \<in> {''Mn'', ''Mc'', ''Me''} then extend_cluster cat (current @ [nc]) (x # rest)
      else (current, nc # x # rest))"

lemma extend_cluster_length:
  "length (snd (extend_cluster cat current chars)) \<le> length chars"
  by (induction cat current chars rule: extend_cluster.induct) (auto simp: le_Suc_eq)

text \<open>The outer \<open>while\<close> of \<open>Encoder.graphemes\<close>.\<close>

function graphemes_loop :: "(nat \<Rightarrow> bool) \<Rightarrow> (nat \<Rightarrow> string) \<Rightarrow> str list \<Rightarrow> str \<Rightarrow> str \<Rightarrow> str list" where
  "graphemes_loop sp cat clusters current [] =
     (if current \<noteq> [] then clusters @ [current] else clusters)"
| "graphemes_loop sp cat clusters current (c # rest) =
     (if sp c
      then graphemes_loop sp cat (if current \<noteq> [] then clusters @ [current] else clusters) [] rest
      else graphemes_loop sp cat
             (clusters @ [fst (extend_cluster cat (current @ [c]) rest)]) []
             (snd (extend_cluster cat (current @ [c]) rest)))"
  by pat_completeness auto
termination
  by (relation "measure (\<lambda>(sp, cat, clusters, current, chars). length chars)")
     (auto simp: extend_cluster_length less_Suc_eq_le)

definition graphemes :: "(nat \<Rightarrow> bool) \<Rightarrow> (nat \<Rightarrow> string) \<Rightarrow> str \<Rightarrow> str list" where
  "graphemes sp cat text = (if text = [] then [] else graphemes_loop sp cat [] [] text)"

record text_acc =
  \<Delta>\<Phi>_sum :: real
  \<kappa>_sum :: real
  N_sum :: real
  sin_s :: real
  cos_s :: real

text \<open>One pass of the \<open>for i, g in enumerate(glyphs)\<close> loop of \<open>Encoder.text\<close>.\<close>

definition text_step :: "(nat \<Rightarrow> string) \<Rightarrow> nat \<Rightarrow> nat \<Rightarrow> str \<Rightarrow> text_acc \<Rightarrow> error + text_acc" where
  "text_step cat n i g acc =
     (case g of
        [] \<Rightarrow> Inl IndexError
      | primary # _ \<Rightarrow>
          if n = 0 then Inl ZeroDivisionError
          else
            let complexity = real (length g);
                \<theta>_g = pymod (real (primary div 256) * \<phi> + real (primary mod 256) / 256 * \<tau>
                              + (real i / real n) * \<tau> / 2) \<tau>;
                ct = (case cat primary of [] \<Rightarrow> CHR ''L'' | ch # _ \<Rightarrow> ch)
            in bindE (py_log (1 + real (sum_list g))) (\<lambda>lg.
                 Inr \<lparr> \<Delta>\<Phi>_sum = \<Delta>\<Phi>_sum acc + \<bar>real primary - real (0x4E00 :: nat)\<bar> / 0x10FFFF,
                       \<kappa>_sum = \<kappa>_sum acc + \<kappa>_MAP ct * (1 + (15 / 100) * complexity),
                       N_sum = N_sum acc + lg / ln (0x10FFFF + 1) * (1 + (25 / 100) * complexity),
                       sin_s = sin_s acc + sin \<theta>_g,
                       cos_s = cos_s acc + cos \<theta>_g \<rparr>))"

fun text_loop :: "(nat \<Rightarrow> string) \<Rightarrow> nat \<Rightarrow> nat \<Rightarrow> str list \<Rightarrow> text_acc \<Rightarrow> error + text_acc" where
  "text_loop cat n i [] acc = Inr acc"
| "text_loop cat n i (g # gs) acc =
     bindE (text_step cat n i g acc) (\<lambda>acc'. text_loop cat n (Suc i) gs acc')"

text \<open>\<open>Encoder.text\<close>.\<close>

definition text_enc :: "(nat \<Rightarrow> bool) \<Rightarrow> (nat \<Rightarrow> string) \<Rightarrow> str \<Rightarrow> str \<Rightarrow> error + \<Psi>" where
  "text_enc sp cat text sr =
     (let glyphs = graphemes sp cat text
      in if glyphs = [] then Inr (default\<Psi> sr)
         else
           let n = length glyphs
           in bindE (text_loop cat n 0 glyphs
                       \<lparr> \<Delta>\<Phi>_sum = 0, \<kappa>_sum = 0, N_sum = 0, sin_s = 0, cos_s = 0 \<rparr>) (\<lambda>acc.
                if n = 0 then Inl ZeroDivisionError
                else Inr (mk\<Psi> (\<Delta>\<Phi>_sum acc / real n) (\<kappa>_sum acc / real n)
                               (pymod (atan2 (sin_s acc) (cos_s acc)) \<tau>)
                               (N_sum acc)
                               (sqrt ((sin_s acc) ^ 2 + (cos_s acc) ^ 2) / real n) 0 sr)))"

text \<open>\<open>str.count(sub)\<close>: the number of non-overlapping occurrences, scanning from the
  left.\<close>

function count_sub :: "str \<Rightarrow> str \<Rightarrow> nat" where
  "count_sub sub s =
     (if sub = [] then length s + 1
      else if s = [] then 0
      else if take (length sub) s = sub then 1 + count_sub sub (drop (length sub) s)
      else count_sub sub (tl s))"
  by pat_completeness auto
termination
  by (relation "measure (\<lambda>(sub, s). length s)") auto

declare count_sub.simps [simp del]

text \<open>\<open>Encoder.code\<close>.\<close>

definition code_enc :: "(nat \<Rightarrow> bool) \<Rightarrow> (nat \<Rightarrow> string) \<Rightarrow> str \<Rightarrow> error + \<Psi>" where
  "code_enc sp cat code =
     bindE (text_enc sp cat code (str_of ''code'')) (\<lambda>\<psi>.
       let branches = count_sub (str_of ''if '') code + count_sub (str_of ''elif '') code
                      + count_sub (str_of ''else:'') code;
           loops = count_sub (str_of ''for '') code + count_sub (str_of ''while '') code;
           defs = count_sub (str_of ''def '') code + count_sub (str_of ''class '') code;
           imports = count_sub (str_of ''import '') code;
           complexity = 1 + (1 / 10) * real (branches + loops + defs)
       in Inr (enforce (\<psi>\<lparr> \<kappa> := min \<kappa>_MAX (\<kappa> \<psi> * complexity),
                           \<Delta>\<Phi> := \<Delta>\<Phi> \<psi> + (5 / 100) * real imports,
                           C := max (1 / 10) (C \<psi> / complexity) \<rparr>)))"

subsection \<open>The multimodal projector\<close>

text \<open>\<open>MultimodalProjector.project\<close>; \<open>math.log\<close> raises at the first field whose
  curvature is not above \<open>- \<epsilon>\<close>.\<close>

definition project :: "\<Psi> list \<Rightarrow> error + \<Psi>" where
  "project flds =
     (if flds = [] then Inr (default\<Psi> (str_of ''empty''))
      else if length flds = 1 then Inr (copy (hd flds))
      else
        let w = softmax_inv (map \<kappa> flds);
            new_\<Delta>\<Phi> = sum_list (map (\<lambda>(wi, f). wi * \<Delta>\<Phi> f) (zip w flds))
        in if list_ex (\<lambda>f. \<kappa> f + \<epsilon> \<le> 0) flds then Inl ValueError
           else
             let log_\<kappa> = sum_list (map (\<lambda>(wi, f). wi * ln (\<kappa> f + \<epsilon>)) (zip w flds));
                 new_\<kappa> = exp log_\<kappa>;
                 sin_s = sum_list (map (\<lambda>(wi, f). wi * sin (\<theta> f)) (zip w flds));
                 cos_s = sum_list (map (\<lambda>(wi, f). wi * cos (\<theta> f)) (zip w flds));
                 new_\<theta> = pymod (atan2 sin_s cos_s) \<tau>;
                 new_N = sum_list (map (\<lambda>(wi, f). wi * N f) (zip w flds));
                 new_C = sqrt (sin_s ^ 2 + cos_s ^ 2)
             in Inr (mk\<Psi> new_\<Delta>\<Phi> new_\<kappa> new_\<theta> new_N new_C 0 [936, 95, 109, 111, 100]))"

subsection \<open>The invariant guardian\<close>

text \<open>\<open>_L_prev\<close> starts at \<open>float('inf')\<close>, modelled by \<open>None\<close>.\<close>

record InvariantGuardian =
  g_C_floor :: real
  L_prev :: "real option"

definition InvariantGuardian_init :: InvariantGuardian where
  "InvariantGuardian_init = \<lparr> g_C_floor = 0, L_prev = None \<rparr>"

definition guardian_reset :: "InvariantGuardian \<Rightarrow> InvariantGuardian" where
  "guardian_reset g = g\<lparr> g_C_floor := 0, L_prev := None \<rparr>"

text \<open>INV-3 of \<open>InvariantGuardian.enforce\<close>: energy conservation.\<close>

definition inv3_energy :: "\<Psi> \<Rightarrow> \<Psi> \<Rightarrow> \<Psi>" where
  "inv3_energy \<psi>_before result =
     (if N \<psi>_before > \<epsilon>
      then
        let ratio = N result / N \<psi>_before
        in if \<bar>ratio - 1\<bar> > ENERGY_\<delta>
           then result\<lparr> N := N \<psi>_before * (1 + ENERGY_\<delta> * (if ratio > 1 then 1 else - 1)) \<rparr>
           else result
      else result)"

text \<open>INV-4 of \<open>InvariantGuardian.enforce\<close>: phase continuity.\<close>

definition inv4_phase :: "\<Psi> \<Rightarrow> \<Psi> \<Rightarrow> \<Psi>" where
  "inv4_phase \<psi>_before result =
     (let \<Delta>\<theta>0 = \<bar>\<theta> result - \<theta> \<psi>_before\<bar>;
          \<Delta>\<theta> = (if \<Delta>\<theta>0 > pi then \<tau> - \<Delta>\<theta>0 else \<Delta>\<theta>0)
      in if \<Delta>\<theta> > PHASE_MAX
         then
           let direction = (if \<theta> result > \<theta> \<psi>_before then 1 else - 1)
           in result\<lparr> \<theta> := pymod (\<theta> \<psi>_before + direction * PHASE_MAX) \<tau> \<rparr>
         else result)"

text \<open>INV-5 of \<open>InvariantGuardian.enforce\<close>: the test of the Ma'at blend.\<close>

definition maat_worse :: "InvariantGuardian \<Rightarrow> real \<Rightarrow> bool" where
  "maat_worse g L = (case L_prev g of None \<Rightarrow> False | Some lp \<Rightarrow> L > lp * (13 / 10))"

text \<open>\<open>InvariantGuardian.enforce\<close>.\<close>

definition guardian_enforce :: "InvariantGuardian \<Rightarrow> \<Psi> \<Rightarrow> \<Psi> \<Rightarrow> real \<Rightarrow> InvariantGuardian \<times> \<Psi>" where
  "guardian_enforce g \<psi>_before \<psi>_after L =
     (let result0 = copy \<psi>_after;
          fl = max (max 0 (g_C_floor g - 2 / 1000)) (C \<psi>_before - 1 / 10);
          result1 = result0\<lparr> C := max (C result0) fl \<rparr>;
          result2 = result1\<lparr> \<kappa> := max \<kappa>_MIN (min \<kappa>_MAX (\<kappa> result1)) \<rparr>;
          result3 = inv3_energy \<psi>_before result2;
          result4 = inv4_phase \<psi>_before result3;
          result5 = (if maat_worse g L then blend \<psi>_before result4 (7 / 10) else result4)
      in (g\<lparr> g_C_floor := fl, L_prev := Some L \<rparr>, enforce result5))"

subsection \<open>The Ma'at functional and the governor\<close>

definition maat_call :: "real \<Rightarrow> \<Psi> \<Rightarrow> \<Psi> \<Rightarrow> real \<Rightarrow> error + real" where
  "maat_call lam \<psi> Mi laplacian_\<kappa> = bindE (dist \<psi> Mi) (\<lambda>d. Inr (d + lam * \<bar>laplacian_\<kappa>\<bar>))"

datatype Governor = ALLOW | REBUILD | BLOCK

fun governor_value :: "Governor \<Rightarrow> string" where
  "governor_value ALLOW = ''allow''"
| "governor_value REBUILD = ''rebuild''"
| "governor_value BLOCK = ''block''"

record MaatGovernor =
  threshold :: real
  gov_current :: real

definition MaatGovernor_init :: MaatGovernor where
  "MaatGovernor_init = \<lparr> threshold = 75 / 100, gov_current = 5 / 10 \<rparr>"

text \<open>\<open>MaatGovernor.judge\<close>.\<close>

definition judge :: "MaatGovernor \<Rightarrow> \<Psi> \<Rightarrow> \<Psi> \<Rightarrow> \<Psi> option \<Rightarrow> error + (MaatGovernor \<times> Governor \<times> real)" where
  "judge gov \<psi>_in \<psi>_out W =
     (let scores0 = [5 / 10 + (C \<psi>_out - C \<psi>_in)];
          scores1 = (if \<kappa> \<psi>_in > \<epsilon> then scores0 @ [1 - min (\<kappa> \<psi>_out / \<kappa> \<psi>_in) 1] else scores0)
      in bindE (case W of None \<Rightarrow> Inr scores1
                | Some w \<Rightarrow> bindE (inner \<psi>_out w) (\<lambda>v. Inr (scores1 @ [(v + 1) / 2]))) (\<lambda>scores.
           let cur = sum_list scores / real (length scores)
           in if cur < threshold gov then Inr (gov\<lparr> gov_current := cur \<rparr>, REBUILD, cur)
              else Inr (gov\<lparr> gov_current := cur \<rparr>, ALLOW, cur)))"

subsection \<open>The forensic logger\<close>

text \<open>\<open>round(x, 4)\<close>: to four decimals, ties to even.\<close>

definition round_half_even :: "real \<Rightarrow> int" where
  "round_half_even y =
     (let f = \<lfloor>y\<rfloor>; d = y - of_int f
      in if d < 1 / 2 then f else if d > 1 / 2 then f + 1 else if even f then f else f + 1)"

definition round4 :: "real \<Rightarrow> real" where
  "round4 x = of_int (round_half_even (x * 10000)) / 10000"

record log_entry =
  le_i :: nat
  le_\<Psi> :: "real \<times> real \<times> real \<times> real \<times> real"
  le_t :: int
  le_L :: real
  le_a :: real

text \<open>The session label is a hash of the clock at construction time; the logger takes it
  as given.\<close>

record ForensicLogger =
  entries :: "log_entry list"
  session :: string
  log_count :: nat

definition ForensicLogger_init :: "string \<Rightarrow> ForensicLogger" where
  "ForensicLogger_init sess = \<lparr> entries = [], session = sess, log_count = 0 \<rparr>"

definition log_append :: "ForensicLogger \<Rightarrow> \<Psi> \<Rightarrow> real \<Rightarrow> \<Psi> \<Rightarrow> ForensicLogger" where
  "log_append lg \<psi> L \<psi>_a =
     (let cnt = log_count lg + 1
      in lg\<lparr> log_count := cnt,
             entries := deque_append 2000 (entries lg)
                          \<lparr> le_i = cnt, le_\<Psi> = vec \<psi>, le_t = t \<psi>, le_L = round4 L,
                            le_a = round4 (C \<psi>_a) \<rparr> \<rparr>)"

subsection \<open>The engine\<close>

text \<open>\<open>e_maat\<close> is the \<open>\<lambda>\<close> of the \<open>MaatFunctional\<close>.\<close>

record ASCPI =
  e_kernel :: kernel
  e_memory :: MemoryField
  e_awareness :: AwarenessField
  e_coherence :: CoherenceForce
  e_world :: WorldCurvature
  e_guardian :: InvariantGuardian
  e_maat :: real
  e_governor :: MaatGovernor
  e_log :: ForensicLogger
  agent_id :: str
  e_step :: nat
  e_current :: "\<Psi> option"

text \<open>\<open>ASCPI.__init__\<close>; \<open>sess\<close> is the session label the logger draws from the clock.\<close>

definition ASCPI_init :: "str \<Rightarrow> string \<Rightarrow> ASCPI" where
  "ASCPI_init aid sess =
     \<lparr> e_kernel = \<lparr> p = KERNEL, n_calls = 0 \<rparr>,
       e_memory = MemoryField_init,
       e_awareness = AwarenessField_init,
       e_coherence = CoherenceForce_init,
       e_world = WorldCurvature_init,
       e_guardian = InvariantGuardian_init,
       e_maat = k_lambda KERNEL,
       e_governor = MaatGovernor_init,
       e_log = ForensicLogger_init sess,
       agent_id = aid,
       e_step = 0,
       e_current = None \<rparr>"

record Result =
  res_output :: \<Psi>
  coherence :: real
  maat :: real
  awareness :: real
  awareness_level :: string
  governor :: string
  steps :: nat
  signature :: string

text \<open>The state of the evolution loop of \<open>process\<close>: the engine, the local \<open>current\<close>,
  the local \<open>trajectory\<close>, and the locals \<open>coherences\<close> and \<open>attractor\<close>, which are
  unbound until the first pass through the loop body.\<close>

record evo =
  ev_engine :: ASCPI
  ev_current :: \<Psi>
  trajectory :: "real list"
  ev_locals :: "((string \<times> real \<times> real) list \<times> \<Psi>) option"

definition coherence_sources :: "ASCPI \<Rightarrow> \<Psi> \<Rightarrow> \<Psi> option \<Rightarrow> \<Psi> option \<Rightarrow> (string \<times> real \<times> real) list" where
  "coherence_sources eng \<psi>_lang \<psi>_code W =
     [(''lang'', C \<psi>_lang, \<kappa> \<psi>_lang),
      (''mem'', C (M_inf (e_memory eng)), \<kappa> (M_inf (e_memory eng))),
      (''aware'', C (aw_field (e_awareness eng)), \<kappa> (aw_field (e_awareness eng)))]
     @ (case \<psi>_code of None \<Rightarrow> [] | Some c \<Rightarrow> [(''code'', C c, \<kappa> c)])
     @ (case W of None \<Rightarrow> [] | Some w \<Rightarrow> [(''world'', C w, \<kappa> w)])"

text \<open>One pass through the body of the evolution loop.\<close>

definition evolve_step :: "\<Psi> \<Rightarrow> \<Psi> option \<Rightarrow> \<Psi> option \<Rightarrow> evo \<Rightarrow> error + evo" where
  "evolve_step \<psi>_lang \<psi>_code W st =
     (let eng = ev_engine st;
          before = copy (ev_current st);
          coherences = coherence_sources eng \<psi>_lang \<psi>_code W;
          cmp = compute (e_coherence eng) coherences;
          grad_C = fst (snd cmp);
          attr = attractor (e_memory eng);
          kc = kernel_call (e_kernel eng) (ev_current st) attr (M_inf (e_memory eng)) W grad_C;
          mem1 = absorb (e_memory eng) (snd kc) (2 / 10);
          mem2 = fuse mem1 (\<psi>_lang # (case \<psi>_code of None \<Rightarrow> [] | Some c \<Rightarrow> [c]));
          cur2 = (snd kc)\<lparr> C := C (M_inf mem2) \<rparr>
      in bindE (evolve (e_awareness eng) cur2 (M_inf mem2) W) (\<lambda>ev.
         bindE (maat_call (e_maat eng) (snd ev) (M_inf mem2) 0) (\<lambda>L.
           let ge = guardian_enforce (e_guardian eng) before (snd ev) L;
               lg = log_append (e_log eng) (snd ge) L (aw_field (fst ev))
           in Inr (st\<lparr> ev_engine := eng\<lparr> e_kernel := fst kc, e_memory := mem2,
                                          e_awareness := fst ev, e_coherence := fst cmp,
                                          e_guardian := fst ge, e_log := lg \<rparr>,
                        ev_current := snd ge,
                        trajectory := trajectory st @ [C (snd ge)],
                        ev_locals := Some (coherences, attr) \<rparr>))))"

text \<open>\<open>for step in range(max_steps)\<close> with its \<open>break\<close>: the first argument is the
  number of passes left, the first component of the result the number of passes made.\<close>

fun evolution_loop :: "nat \<Rightarrow> \<Psi> \<Rightarrow> \<Psi> option \<Rightarrow> \<Psi> option \<Rightarrow> evo \<Rightarrow> error + (nat \<times> evo)" where
  "evolution_loop 0 \<psi>_lang \<psi>_code W st = Inr (0, st)"
| "evolution_loop (Suc n) \<psi>_lang \<psi>_code W st =
     bindE (evolve_step \<psi>_lang \<psi>_code W st) (\<lambda>st'.
       if C (ev_current st') > 95 / 100 then Inr (1, st')
       else bindE (evolution_loop n \<psi>_lang \<psi>_code W st') (\<lambda>r. Inr (Suc (fst r), snd r)))"

text \<open>One pass through the rebuild loop: no fusion, no log entry, no trajectory entry, and
  the \<open>coherences\<close> and \<open>attractor\<close> left by the evolution loop.\<close>

definition rebuild_step :: "\<Psi> option \<Rightarrow> (string \<times> real \<times> real) list \<Rightarrow> \<Psi> \<Rightarrow> ASCPI \<times> \<Psi> \<Rightarrow> error + (ASCPI \<times> \<Psi>)" where
  "rebuild_step W coherences attr ec =
     (let eng = fst ec;
          before = copy (snd ec);
          cmp = compute (e_coherence eng) coherences;
          grad_C = fst (snd cmp);
          kc = kernel_call (e_kernel eng) (snd ec) attr (M_inf (e_memory eng)) W grad_C;
          mem1 = absorb (e_memory eng) (snd kc) (2 / 10);
          cur2 = (snd kc)\<lparr> C := C (M_inf mem1) \<rparr>
      in bindE (evolve (e_awareness eng) cur2 (M_inf mem1) W) (\<lambda>ev.
         bindE (maat_call (e_maat eng) (snd ev) (M_inf mem1) 0) (\<lambda>L.
           let ge = guardian_enforce (e_guardian eng) before (snd ev) L
           in Inr (eng\<lparr> e_kernel := fst kc, e_memory := mem1, e_awareness := fst ev,
                        e_coherence := fst cmp, e_guardian := fst ge \<rparr>, snd ge))))"

fun rebuild_loop :: "nat \<Rightarrow> \<Psi> option \<Rightarrow> (string \<times> real \<times> real) list \<Rightarrow> \<Psi> \<Rightarrow> ASCPI \<times> \<Psi> \<Rightarrow> error + (ASCPI \<times> \<Psi>)" where
  "rebuild_loop 0 W coherences attr ec = Inr ec"
| "rebuild_loop (Suc n) W coherences attr ec =
     bindE (rebuild_step W coherences attr ec) (\<lambda>ec'. rebuild_loop n W coherences attr ec')"

definition set_\<alpha> :: "ASCPI \<Rightarrow> real \<Rightarrow> ASCPI" where
  "set_\<alpha> eng a = eng\<lparr> e_kernel := (e_kernel eng)\<lparr> p := (p (e_kernel eng))\<lparr> k_\<alpha> := a \<rparr> \<rparr> \<rparr>"

text \<open>The rebuild branch of \<open>process\<close>: with \<open>coherences\<close> and \<open>attractor\<close> unbound (no
  pass through the evolution loop) the first pass raises.\<close>

definition rebuild :: "\<Psi> option \<Rightarrow> evo \<Rightarrow> ASCPI \<Rightarrow> error + (ASCPI \<times> \<Psi>)" where
  "rebuild W st eng =
     (let old_\<alpha> = k_\<alpha> (p (e_kernel eng))
      in case ev_locals st of
           None \<Rightarrow> Inl UnboundLocalError
         | Some loc \<Rightarrow>
             bindE (rebuild_loop 10 W (fst loc) (snd loc)
                      (set_\<alpha> eng (old_\<alpha> * (15 / 10)), ev_current st)) (\<lambda>ec.
               Inr (set_\<alpha> (fst ec) old_\<alpha>, snd ec)))"

text \<open>The world context of \<open>process\<close>: \<open>for sid, txt in world.items()\<close>.\<close>

fun world_adds :: "(nat \<Rightarrow> bool) \<Rightarrow> (nat \<Rightarrow> string) \<Rightarrow> WorldCurvature \<Rightarrow> (str \<times> str) list \<Rightarrow> error + WorldCurvature" where
  "world_adds sp cat w [] = Inr w"
| "world_adds sp cat w (st # rest) =
     bindE (text_enc sp cat (snd st) (str_of ''world'')) (\<lambda>\<psi>.
       world_adds sp cat (world_add w (fst st) \<psi>) rest)"

text \<open>\<open>ASCPI.process\<close>. The parameter \<open>sg\<close> stands for the first eight hexadecimal digits
  of the SHA-256 of the printed state vector.\<close>

definition process :: "(nat \<Rightarrow> bool) \<Rightarrow> (nat \<Rightarrow> string) \<Rightarrow> (real \<times> real \<times> real \<times> real \<times> real \<Rightarrow> string)
    \<Rightarrow> ASCPI \<Rightarrow> str \<Rightarrow> str option \<Rightarrow> (str \<times> str) list option \<Rightarrow> int \<Rightarrow> error + (ASCPI \<times> Result)" where
  "process sp cat sg eng0 text code world max_steps =
     (let eng1 = eng0\<lparr> e_step := e_step eng0 + 1, e_guardian := guardian_reset (e_guardian eng0) \<rparr>
      in
      bindE (text_enc sp cat text (str_of ''lang'')) (\<lambda>\<psi>_lang.
      bindE (case code of None \<Rightarrow> Inr None
             | Some c \<Rightarrow> if c = [] then Inr None
                         else bindE (code_enc sp cat c) (\<lambda>\<psi>. Inr (Some \<psi>))) (\<lambda>\<psi>_code.
      bindE (world_adds sp cat (e_world eng1) (case world of None \<Rightarrow> [] | Some ws \<Rightarrow> ws)) (\<lambda>wld.
        let eng2 = eng1\<lparr> e_world := wld \<rparr>;
            W = w_field wld;
            flds = [\<psi>_lang, attractor (e_memory eng2), aw_field (e_awareness eng2)]
                   @ (case \<psi>_code of None \<Rightarrow> [] | Some c \<Rightarrow> [c])
                   @ (case W of None \<Rightarrow> [] | Some w \<Rightarrow> [w])
        in
        bindE (project flds) (\<lambda>current0.
        bindE (evolution_loop (nat max_steps) \<psi>_lang \<psi>_code W
                 \<lparr> ev_engine = eng2, ev_current = current0, trajectory = [],
                   ev_locals = None \<rparr>) (\<lambda>lp.
        bindE (judge (e_governor (ev_engine (snd lp))) \<psi>_lang (ev_current (snd lp)) W) (\<lambda>jd.
          let decision = fst (snd jd);
              maat_score = snd (snd jd);
              eng3 = (ev_engine (snd lp))\<lparr> e_governor := fst jd \<rparr>
          in
          bindE (if decision = REBUILD then rebuild W (snd lp) eng3
                 else Inr (eng3, ev_current (snd lp))) (\<lambda>ec.
            Inr ((fst ec)\<lparr> e_current := Some (snd ec) \<rparr>,
                 \<lparr> res_output = snd ec,
                   coherence = C (snd ec),
                   maat = maat_score,
                   awareness = C (aw_field (e_awareness (fst ec))),
                   awareness_level = level (e_awareness (fst ec)),
                   governor = governor_value decision,
                   steps = length (trajectory (snd lp)),
                   signature = sg (vec (snd ec)) \<rparr>)))))))))"

section \<open>Properties\<close>

subsection \<open>Bounds\<close>

definition bounded :: "\<Psi> \<Rightarrow> bool" where
  "bounded s \<longleftrightarrow> 1 / 100 \<le> \<kappa> s \<and> \<kappa> s \<le> 10 \<and> 0 \<le> \<theta> s \<and> \<theta> s < 2 * pi
                \<and> 0 \<le> C s \<and> C s \<le> 1 \<and> 0 < N s"

lemma tau_pos: "0 < \<tau>"
  by (simp add: \<tau>_def)

lemma pymod_range: "0 < m \<Longrightarrow> 0 \<le> pymod x m \<and> pymod x m < m"
  using floor_divide_lower [of m x] floor_divide_upper [of m x]
  by (simp add: pymod_def algebra_simps)

lemma enforce_bounded: "bounded (enforce s)"
  using pymod_range [OF tau_pos, of "\<theta> s"]
  by (simp add: bounded_def enforce_def \<kappa>_MIN_def \<kappa>_MAX_def \<epsilon>_def \<tau>_def)


lemma mk_bounded: "bounded (mk\<Psi> d k th n c i sr)"
  by (simp add: mk\<Psi>_def enforce_bounded)

lemma copy_bounded: "bounded (copy s)"
  by (simp add: copy_def mk_bounded)

lemma kernel_bounded: "bounded (snd (kernel_call ker \<psi> A Mi W g))"
  by (simp add: kernel_call_def Let_def enforce_bounded)

lemma guardian_bounded: "bounded (snd (guardian_enforce g b a L))"
  by (simp add: guardian_enforce_def Let_def enforce_bounded)

lemma bindE_Inr: "bindE m f = Inr y \<Longrightarrow> \<exists>v. m = Inr v \<and> f v = Inr y"
  by (cases m) (simp_all add: bindE_def)

lemma bindE_simps [simp]: "bindE (Inr v) f = f v" "bindE (Inl e) f = Inl e"
  by (simp_all add: bindE_def)

lemma text_enc_bounded: "text_enc sp cat txt sr = Inr s \<Longrightarrow> bounded s"
  by (auto simp: text_enc_def Let_def default\<Psi>_def mk_bounded split: if_splits dest!: bindE_Inr)

lemma code_enc_bounded: "code_enc sp cat txt = Inr s \<Longrightarrow> bounded s"
  by (auto simp: code_enc_def Let_def enforce_bounded dest!: bindE_Inr)

lemma evolve_step_bounded: "evolve_step l c W st = Inr st' \<Longrightarrow> bounded (ev_current st')"
  by (auto simp: evolve_step_def Let_def guardian_bounded dest!: bindE_Inr)

lemma evolution_loop_bounded:
  "evolution_loop n l c W st = Inr r \<Longrightarrow> bounded (ev_current st) \<Longrightarrow> bounded (ev_current (snd r))"
proof (induction n arbitrary: st r)
  case 0
  then show ?case by auto
next
  case (Suc n)
  from Suc.prems(1) obtain st' where s: "evolve_step l c W st = Inr st'"
    and r: "(if C (ev_current st') > 95 / 100 then Inr (1, st')
       else bindE (evolution_loop n l c W st') (\<lambda>r. Inr (Suc (fst r), snd r))) = Inr r"
    by (auto dest!: bindE_Inr)
  have b: "bounded (ev_current st')" using s by (rule evolve_step_bounded)
  show ?case
  proof (cases "C (ev_current st') > 95 / 100")
    case True
    with r b show ?thesis by auto
  next
    case False
    with r obtain r' where "evolution_loop n l c W st' = Inr r'" "snd r = snd r'"
      by (auto dest!: bindE_Inr)
    with Suc.IH [OF _ b] show ?thesis by simp
  qed
qed

lemma bindE_InrE:
  assumes "bindE m f = Inr y"
  obtains v where "m = Inr v" and "f v = Inr y"
  using assms by (cases m) (simp_all add: bindE_def)

lemma rebuild_step_bounded:
  assumes "rebuild_step W co atr ec = Inr ec'"
  shows "bounded (snd ec')"
  using assms unfolding rebuild_step_def Let_def
  by (elim bindE_InrE) (auto simp: guardian_bounded)

lemma rebuild_loop_bounded:
  "rebuild_loop n W co atr ec = Inr ec' \<Longrightarrow> bounded (snd ec) \<Longrightarrow> bounded (snd ec')"
proof (induction n arbitrary: ec)
  case 0
  then show ?case by simp
next
  case (Suc n)
  from Suc.prems(1) obtain e1 where a: "rebuild_step W co atr ec = Inr e1"
    and b: "rebuild_loop n W co atr e1 = Inr ec'"
    by (auto elim: bindE_InrE)
  from Suc.IH [OF b rebuild_step_bounded [OF a]] show ?case .
qed

lemma process_InrD:
  assumes "process sp cat sg eng txt code world ms = Inr er"
  shows "\<exists>l c wld cur0 lp jd ec.
           text_enc sp cat txt (str_of ''lang'') = Inr l
         \<and> (case code of None \<Rightarrow> Inr None
              | Some x \<Rightarrow> if x = [] then Inr None
                          else bindE (code_enc sp cat x) (\<lambda>\<psi>. Inr (Some \<psi>))) = Inr c
         \<and> world_adds sp cat (e_world eng) (case world of None \<Rightarrow> [] | Some ws \<Rightarrow> ws) = Inr wld
         \<and> project ([l, attractor (e_memory eng), aw_field (e_awareness eng)]
                     @ (case c of None \<Rightarrow> [] | Some x \<Rightarrow> [x])
                     @ (case w_field wld of None \<Rightarrow> [] | Some w \<Rightarrow> [w])) = Inr cur0
         \<and> evolution_loop (nat ms) l c (w_field wld)
              \<lparr> ev_engine = eng\<lparr> e_step := e_step eng + 1,
                                   e_guardian := guardian_reset (e_guardian eng),
                                   e_world := wld \<rparr>,
                ev_current = cur0, trajectory = [], ev_locals = None \<rparr> = Inr lp
         \<and> judge (e_governor (ev_engine (snd lp))) l (ev_current (snd lp)) (w_field wld) = Inr jd
         \<and> (if fst (snd jd) = REBUILD
             then rebuild (w_field wld) (snd lp) ((ev_engine (snd lp))\<lparr> e_governor := fst jd \<rparr>)
             else Inr ((ev_engine (snd lp))\<lparr> e_governor := fst jd \<rparr>, ev_current (snd lp))) = Inr ec
         \<and> res_output (snd er) = snd ec
         \<and> coherence (snd er) = C (snd ec)
         \<and> governor (snd er) = governor_value (fst (snd jd))
         \<and> steps (snd er) = length (trajectory (snd lp))
         \<and> signature (snd er) = sg (vec (snd ec))
         \<and> fst er = (fst ec)\<lparr> e_current := Some (snd ec) \<rparr>"
  using assms unfolding process_def Let_def
  apply (elim bindE_InrE)
  subgoal for v va vb vc vd ve vf
    apply (rule exI [of _ v], rule exI [of _ va], rule exI [of _ vb], rule exI [of _ vc],
        rule exI [of _ vd], rule exI [of _ ve], rule exI [of _ vf])
    apply auto
    done
  done


definition positive :: "\<Psi> \<Rightarrow> bool" where
  "positive s \<longleftrightarrow> 0 < \<kappa> s \<and> 0 < N s"

lemma bounded_positive: "bounded s \<Longrightarrow> positive s"
  by (simp add: bounded_def positive_def)

lemma positive_upd [simp]:
  "positive (s\<lparr> C := c \<rparr>) = positive s"
  "positive (s\<lparr> \<theta> := x \<rparr>) = positive s"
  by (simp_all add: positive_def)

lemma eps_pos: "0 < \<epsilon>"
  by (simp add: \<epsilon>_def)

lemma dist_total: "positive a \<Longrightarrow> positive b \<Longrightarrow> \<exists>d. dist a b = Inr d"
  using eps_pos by (simp add: dist_def py_log_def positive_def Let_def add_pos_pos not_le)

lemma inner_total: "positive a \<Longrightarrow> 0 \<le> N b \<Longrightarrow> \<exists>r. inner a b = Inr r"
  by (simp add: inner_def py_sqrt_def positive_def Let_def not_less)

lemma evolve_total:
  assumes "positive a" and "positive b"
  shows "\<exists>r. evolve aw a b W = Inr r \<and> positive (snd r) \<and> bounded (aw_field (fst r))"
proof -
  from dist_total [OF assms] obtain d where d: "dist a b = Inr d" ..
  from assms(2) have "0 \<le> N b" by (simp add: positive_def)
  from inner_total [OF assms(1) this] obtain r where r: "inner a b = Inr r" ..
  show ?thesis
    by (simp add: evolve_def d r Let_def enforce_bounded bounded_positive copy_bounded)
qed

lemma absorb_bounded: "bounded (M_inf (absorb mem s rate))"
  by (simp add: absorb_def Let_def enforce_bounded)

lemma fold_absorb_bounded:
  "(\<And>x m. bounded (M_inf (f x m))) \<Longrightarrow> bounded (M_inf mem) \<Longrightarrow> bounded (M_inf (fold f ws mem))"
  by (induction ws arbitrary: mem) auto

lemma fuse_bounded: "bounded (M_inf mem) \<Longrightarrow> bounded (M_inf (fuse mem srcs))"
  unfolding fuse_def
  by (auto intro!: fold_absorb_bounded simp: absorb_bounded split: prod.splits)

lemma maat_total: "positive a \<Longrightarrow> positive b \<Longrightarrow> \<exists>L. maat_call lam a b x = Inr L"
  using dist_total [of a b] by (auto simp: maat_call_def)

lemma evolve_step_total: "\<exists>st'. evolve_step l c W st = Inr st'"
proof -
  define eng where "eng = ev_engine st"
  define grad where "grad = fst (snd (compute (e_coherence eng) (coherence_sources eng l c W)))"
  define kc where "kc = kernel_call (e_kernel eng) (ev_current st) (attractor (e_memory eng))
                          (M_inf (e_memory eng)) W grad"
  define mem2 where "mem2 = fuse (absorb (e_memory eng) (snd kc) (2 / 10))
                              (l # (case c of None \<Rightarrow> [] | Some x \<Rightarrow> [x]))"
  define cur2 where "cur2 = (snd kc)\<lparr> C := C (M_inf mem2) \<rparr>"
  have m: "positive (M_inf mem2)"
    unfolding mem2_def by (intro bounded_positive fuse_bounded absorb_bounded)
  have "positive (snd kc)"
    unfolding kc_def by (intro bounded_positive kernel_bounded)
  then have c2: "positive cur2" by (simp add: cur2_def)
  from evolve_total [OF c2 m] obtain ev where ev: "evolve (e_awareness eng) cur2 (M_inf mem2) W = Inr ev"
    and pe: "positive (snd ev)" by blast
  from maat_total [OF pe m] obtain L where L: "maat_call (e_maat eng) (snd ev) (M_inf mem2) 0 = Inr L" ..
  show ?thesis
    unfolding evolve_step_def Let_def
    using ev L by (simp add: eng_def grad_def kc_def mem2_def cur2_def)
qed

lemma rebuild_step_total: "\<exists>ec'. rebuild_step W co atr ec = Inr ec'"
proof -
  define eng where "eng = fst ec"
  define grad where "grad = fst (snd (compute (e_coherence eng) co))"
  define kc where "kc = kernel_call (e_kernel eng) (snd ec) atr (M_inf (e_memory eng)) W grad"
  define mem1 where "mem1 = absorb (e_memory eng) (snd kc) (2 / 10)"
  define cur2 where "cur2 = (snd kc)\<lparr> C := C (M_inf mem1) \<rparr>"
  have m: "positive (M_inf mem1)"
    unfolding mem1_def by (intro bounded_positive absorb_bounded)
  have "positive (snd kc)"
    unfolding kc_def by (intro bounded_positive kernel_bounded)
  then have c2: "positive cur2" by (simp add: cur2_def)
  from evolve_total [OF c2 m] obtain ev where ev: "evolve (e_awareness eng) cur2 (M_inf mem1) W = Inr ev"
    and pe: "positive (snd ev)" by blast
  from maat_total [OF pe m] obtain L where L: "maat_call (e_maat eng) (snd ev) (M_inf mem1) 0 = Inr L" ..
  show ?thesis
    unfolding rebuild_step_def Let_def
    using ev L by (simp add: eng_def grad_def kc_def mem1_def cur2_def)
qed

lemma rebuild_loop_total: "\<exists>ec'. rebuild_loop n W co atr ec = Inr ec'"
proof (induction n arbitrary: ec)
  case 0
  show ?case by simp
next
  case (Suc n)
  from rebuild_step_total obtain e1 where "rebuild_step W co atr ec = Inr e1" ..
  with Suc [of e1] show ?case by simp
qed

lemma evolution_loop_total: "\<exists>r. evolution_loop n l c W st = Inr r"
proof (induction n arbitrary: st)
  case 0
  show ?case by simp
next
  case (Suc n)
  from evolve_step_total obtain s1 where s1: "evolve_step l c W st = Inr s1" ..
  from Suc [of s1] obtain r where "evolution_loop n l c W s1 = Inr r" ..
  with s1 show ?case by simp
qed

lemma evolve_step_locals: "evolve_step l c W st = Inr st' \<Longrightarrow> ev_locals st' \<noteq> None"
  unfolding evolve_step_def Let_def by (elim bindE_InrE) auto

lemma evolution_loop_locals:
  "evolution_loop n l c W st = Inr r \<Longrightarrow> ev_locals st \<noteq> None \<or> 0 < n \<Longrightarrow> ev_locals (snd r) \<noteq> None"
proof (induction n arbitrary: st r)
  case 0
  then show ?case by auto
next
  case (Suc n)
  from Suc.prems(1) obtain s1 where s1: "evolve_step l c W st = Inr s1"
    and r: "(if C (ev_current s1) > 95 / 100 then Inr (1, s1)
       else bindE (evolution_loop n l c W s1) (\<lambda>r. Inr (Suc (fst r), snd r))) = Inr r"
    by (auto elim: bindE_InrE)
  have b: "ev_locals s1 \<noteq> None" using s1 by (rule evolve_step_locals)
  show ?case
  proof (cases "C (ev_current s1) > 95 / 100")
    case True
    with r b show ?thesis by auto
  next
    case False
    with r obtain r' where "evolution_loop n l c W s1 = Inr r'" "snd r = snd r'"
      by (auto elim: bindE_InrE)
    with Suc.IH [of s1 r'] b show ?thesis by simp
  qed
qed

lemma extend_cluster_nonempty:
  "current \<noteq> [] \<Longrightarrow> fst (extend_cluster cat current chars) \<noteq> []"
  by (induction cat current chars rule: extend_cluster.induct) auto

lemma graphemes_loop_nonempty:
  "\<forall>g\<in>set clusters. g \<noteq> [] \<Longrightarrow> \<forall>g\<in>set (graphemes_loop sp cat clusters current chars). g \<noteq> []"
proof (induction sp cat clusters current chars rule: graphemes_loop.induct)
  case (1 sp cat clusters current)
  then show ?case by simp
next
  case (2 sp cat clusters current c rest)
  show ?case
  proof (cases "sp c")
    case True
    have "\<forall>g\<in>set (if current \<noteq> [] then clusters @ [current] else clusters). g \<noteq> []"
      using "2.prems" by simp
    from "2.IH"(1) [OF True this] show ?thesis
      by (simp only: graphemes_loop.simps True if_True)
  next
    case False
    have "fst (extend_cluster cat (current @ [c]) rest) \<noteq> []"
      by (rule extend_cluster_nonempty) simp
    then have "\<forall>g\<in>set (clusters @ [fst (extend_cluster cat (current @ [c]) rest)]). g \<noteq> []"
      using "2.prems" by simp
    from "2.IH"(2) [OF False this] show ?thesis
      by (simp only: graphemes_loop.simps False if_False)
  qed
qed

lemma graphemes_nonempty: "\<forall>g\<in>set (graphemes sp cat txt). g \<noteq> []"
  using graphemes_loop_nonempty [of "[]" sp cat "[]" "txt"] by (simp add: graphemes_def)

lemma text_step_total: "g \<noteq> [] \<Longrightarrow> n \<noteq> 0 \<Longrightarrow> \<exists>acc'. text_step cat n i g acc = Inr acc'"
  by (cases g) (simp_all add: text_step_def Let_def py_log_def not_le add_pos_nonneg)

lemma text_loop_total:
  "\<forall>g\<in>set gs. g \<noteq> [] \<Longrightarrow> n \<noteq> 0 \<Longrightarrow> \<exists>acc'. text_loop cat n i gs acc = Inr acc'"
proof (induction gs arbitrary: i acc)
  case Nil
  show ?case by simp
next
  case (Cons g gs)
  from Cons.prems have "g \<noteq> []" by simp
  from text_step_total [OF this Cons.prems(2)] obtain a1 where "text_step cat n i g acc = Inr a1" ..
  moreover from Cons.IH [of "Suc i" a1] Cons.prems
  obtain a2 where "text_loop cat n (Suc i) gs a1 = Inr a2" by auto
  ultimately show ?case by simp
qed

lemma text_enc_total: "\<exists>s. text_enc sp cat txt sr = Inr s"
proof (cases "graphemes sp cat txt = []")
  case True
  then show ?thesis by (simp add: text_enc_def)
next
  case False
  then have n: "length (graphemes sp cat txt) \<noteq> 0" by simp
  from text_loop_total [OF graphemes_nonempty n]
  obtain acc where "text_loop cat (length (graphemes sp cat txt)) 0 (graphemes sp cat txt)
      \<lparr> \<Delta>\<Phi>_sum = 0, \<kappa>_sum = 0, N_sum = 0, sin_s = 0, cos_s = 0 \<rparr> = Inr acc" ..
  with False show ?thesis by (simp add: text_enc_def Let_def)
qed

lemma code_enc_total: "\<exists>s. code_enc sp cat cd = Inr s"
  using text_enc_total [of sp cat cd "str_of ''code''"] by (auto simp: code_enc_def Let_def)

lemma world_adds_total: "\<exists>w'. world_adds sp cat w ws = Inr w'"
proof (induction ws arbitrary: w)
  case Nil
  show ?case by simp
next
  case (Cons x ws)
  from text_enc_total obtain s where "text_enc sp cat (snd x) (str_of ''world'') = Inr s" ..
  with Cons [of "world_add w (fst x) s"] show ?case by simp
qed

lemma world_update_bounded: "world_update srcs = Some w \<Longrightarrow> bounded w"
  by (auto simp: world_update_def Let_def mk_bounded split: if_splits)

lemma world_adds_field:
  "world_adds sp cat w ws = Inr w' \<Longrightarrow> (\<forall>x. w_field w = Some x \<longrightarrow> bounded x)
     \<Longrightarrow> (\<forall>x. w_field w' = Some x \<longrightarrow> bounded x)"
proof (induction ws arbitrary: w)
  case Nil
  then show ?case by simp
next
  case (Cons y ws)
  from Cons.prems(1) obtain s where "world_adds sp cat (world_add w (fst y) s) ws = Inr w'"
    by (auto elim: bindE_InrE)
  moreover have "\<forall>x. w_field (world_add w (fst y) s) = Some x \<longrightarrow> bounded x"
    by (auto simp: world_add_def Let_def dest: world_update_bounded)
  ultimately show ?case by (rule Cons.IH)
qed

lemma project_total: "\<forall>f\<in>set fs. positive f \<Longrightarrow> \<exists>s. project fs = Inr s"
proof -
  assume a: "\<forall>f\<in>set fs. positive f"
  have "\<not> list_ex (\<lambda>f. \<kappa> f + \<epsilon> \<le> 0) fs"
  proof
    assume "list_ex (\<lambda>f. \<kappa> f + \<epsilon> \<le> 0) fs"
    then obtain f where "f \<in> set fs" "\<kappa> f + \<epsilon> \<le> 0" by (auto simp: list_ex_iff)
    with a eps_pos show False by (auto simp: positive_def)
  qed
  then show ?thesis by (simp add: project_def Let_def)
qed

lemma judge_decision:
  assumes "judge gov a b W = Inr jd"
  shows "fst (snd jd) = ALLOW \<or> fst (snd jd) = REBUILD"
  using assms unfolding judge_def Let_def
  by (elim bindE_InrE) (auto split: if_splits)

lemma judge_total:
  assumes "positive b" and "\<forall>w. W = Some w \<longrightarrow> 0 \<le> N w"
  shows "\<exists>jd. judge gov a b W = Inr jd"
proof (cases W)
  case None
  then show ?thesis by (simp add: judge_def Let_def)
next
  case (Some w)
  with assms(2) have "0 \<le> N w" by simp
  from inner_total [OF assms(1) this] obtain v where "inner b w = Inr v" ..
  with Some show ?thesis by (simp add: judge_def Let_def)
qed

definition engine_ok :: "ASCPI \<Rightarrow> bool" where
  "engine_ok eng \<longleftrightarrow> bounded (aw_field (e_awareness eng))
                    \<and> (case w_field (e_world eng) of None \<Rightarrow> True | Some w \<Rightarrow> bounded w)"

lemma project_bounded: "project fs = Inr s \<Longrightarrow> bounded s"
  by (auto simp: project_def Let_def default\<Psi>_def mk_bounded copy_bounded split: if_splits)

lemma rebuild_bounded:
  assumes "rebuild W st eng = Inr ec" and "bounded (ev_current st)"
  shows "bounded (snd ec)"
proof -
  from assms(1) obtain loc e1 where
    "rebuild_loop 10 W (fst loc) (snd loc)
       (set_\<alpha> eng (k_\<alpha> (p (e_kernel eng)) * (15 / 10)), ev_current st) = Inr e1"
    and "snd ec = snd e1"
    unfolding rebuild_def Let_def
    by (auto split: option.splits elim!: bindE_InrE)
  with rebuild_loop_bounded [of 10 W "fst loc" "snd loc" _ e1] assms(2) show ?thesis by simp
qed

lemma attractor_bounded: "bounded (attractor mem)"
  by (simp add: attractor_def copy_bounded split: option.splits)

lemma code_part_total:
  "\<exists>c. (case code of None \<Rightarrow> Inr None
        | Some x \<Rightarrow> if x = [] then Inr None
                    else bindE (code_enc sp cat x) (\<lambda>\<psi>. Inr (Some \<psi>))) = Inr c
       \<and> (\<forall>y. c = Some y \<longrightarrow> bounded y)"
proof (cases code)
  case None
  then show ?thesis by simp
next
  case (Some x)
  from code_enc_total obtain s where s: "code_enc sp cat x = Inr s" ..
  from code_enc_bounded [OF s] s Some show ?thesis by simp
qed

lemma rebuild_total: "ev_locals st \<noteq> None \<Longrightarrow> \<exists>ec. rebuild W st eng = Inr ec"
proof -
  assume "ev_locals st \<noteq> None"
  then obtain loc where loc: "ev_locals st = Some loc" by auto
  from rebuild_loop_total obtain ec where
    "rebuild_loop 10 W (fst loc) (snd loc)
       (set_\<alpha> eng (k_\<alpha> (p (e_kernel eng)) * (15 / 10)), ev_current st) = Inr ec" ..
  with loc show ?thesis by (simp add: rebuild_def Let_def)
qed

lemma process_total:
  assumes ms: "0 < ms" and ok: "engine_ok eng"
  shows "\<exists>er. process sp cat sg eng txt code world ms = Inr er"
proof -
  define eng1 where "eng1 = eng\<lparr> e_step := e_step eng + 1,
                                 e_guardian := guardian_reset (e_guardian eng) \<rparr>"
  from text_enc_total obtain l where l: "text_enc sp cat txt (str_of ''lang'') = Inr l" ..
  from code_part_total obtain c where
    c: "(case code of None \<Rightarrow> Inr None
        | Some x \<Rightarrow> if x = [] then Inr None
                    else bindE (code_enc sp cat x) (\<lambda>\<psi>. Inr (Some \<psi>))) = Inr c"
    and cb: "\<forall>y. c = Some y \<longrightarrow> bounded y" by blast
  from world_adds_total obtain wld where
    w: "world_adds sp cat (e_world eng1) (case world of None \<Rightarrow> [] | Some ws \<Rightarrow> ws) = Inr wld" ..
  have "\<forall>x. w_field (e_world eng1) = Some x \<longrightarrow> bounded x"
    using ok by (auto simp: engine_ok_def eng1_def)
  from world_adds_field [OF w this] have wb: "\<forall>x. w_field wld = Some x \<longrightarrow> bounded x" .
  define eng2 where "eng2 = eng1\<lparr> e_world := wld \<rparr>"
  define flds where "flds = [l, attractor (e_memory eng2), aw_field (e_awareness eng2)]
                   @ (case c of None \<Rightarrow> [] | Some x \<Rightarrow> [x])
                   @ (case w_field wld of None \<Rightarrow> [] | Some x \<Rightarrow> [x])"
  have "\<forall>f\<in>set flds. bounded f"
    using text_enc_bounded [OF l] cb wb ok
    by (auto simp: flds_def attractor_bounded engine_ok_def eng2_def eng1_def split: option.splits)
  then have "\<forall>f\<in>set flds. positive f" by (auto intro: bounded_positive)
  from project_total [OF this] obtain cur0 where p0: "project flds = Inr cur0" ..
  define st0 where "st0 = \<lparr> ev_engine = eng2, ev_current = cur0, trajectory = [], ev_locals = None \<rparr>"
  from evolution_loop_total obtain lp where
    lp: "evolution_loop (nat ms) l c (w_field wld) st0 = Inr lp" ..
  have "bounded (ev_current st0)" using project_bounded [OF p0] by (simp add: st0_def)
  from evolution_loop_bounded [OF lp this] have pb: "positive (ev_current (snd lp))"
    by (rule bounded_positive)
  have "\<forall>x. w_field wld = Some x \<longrightarrow> 0 \<le> N x"
    using wb by (auto simp: bounded_def)
  from judge_total [OF pb this] obtain jd where
    jd: "judge (e_governor (ev_engine (snd lp))) l (ev_current (snd lp)) (w_field wld) = Inr jd" ..
  have "ev_locals (snd lp) \<noteq> None"
    using evolution_loop_locals [OF lp] ms by simp
  from rebuild_total [OF this] obtain ec1 where
    "rebuild (w_field wld) (snd lp) ((ev_engine (snd lp))\<lparr> e_governor := fst jd \<rparr>) = Inr ec1" ..
  then obtain ec where
    ec: "(if fst (snd jd) = REBUILD
          then rebuild (w_field wld) (snd lp) ((ev_engine (snd lp))\<lparr> e_governor := fst jd \<rparr>)
          else Inr ((ev_engine (snd lp))\<lparr> e_governor := fst jd \<rparr>, ev_current (snd lp))) = Inr ec"
    by (cases "fst (snd jd) = REBUILD") auto
  show ?thesis
    unfolding process_def Let_def
    using l c w p0 lp jd ec
    by (simp add: eng1_def eng2_def flds_def st0_def)
qed

lemma ASCPI_init_ok: "engine_ok (ASCPI_init aid sess)"
  by (simp add: engine_ok_def ASCPI_init_def AwarenessField_init_def WorldCurvature_init_def
      mk_bounded)

subsection \<open>The kernel leaves coherence alone and advances the step counter\<close>

lemma enforce_C: "C (enforce s) = max 0 (min 1 (C s))"
  by (simp add: enforce_def)

lemma enforce_t: "t (enforce s) = t s"
  by (simp add: enforce_def)

lemma kernel_call_C: "C (snd (kernel_call ker \<psi> A Mi W g)) = max 0 (min 1 (C \<psi>))"
  by (simp add: kernel_call_def Let_def mk\<Psi>_def enforce_C)

lemma kernel_call_t: "t (snd (kernel_call ker \<psi> A Mi W g)) = t \<psi> + 1"
  by (simp add: kernel_call_def Let_def mk\<Psi>_def enforce_t)

text \<open>
  Claim C6. For every input state \<open>\<psi>\<close> whose coherence lies in \<open>[0, 1]\<close>, and every
  attractor, memory state, optional world state and gradient, the state returned by the
  kernel has exactly the coherence of \<open>\<psi>\<close> and the step counter \<open>t \<psi> + 1\<close>.
\<close>

theorem kernel_coherence_and_step:
  assumes "0 \<le> C \<psi>" and "C \<psi> \<le> 1"
  shows "C (snd (kernel_call ker \<psi> A Mi W g)) = C \<psi>
         \<and> t (snd (kernel_call ker \<psi> A Mi W g)) = t \<psi> + 1"
  using assms by (simp add: kernel_call_C kernel_call_t)

theorem kernel_coherence_and_step_witness:
  "C (snd (kernel_call \<lparr> p = KERNEL, n_calls = 0 \<rparr> (default\<Psi> []) (default\<Psi> [])
            (default\<Psi> []) None (1 / 10))) = 1 / 2
   \<and> t (snd (kernel_call \<lparr> p = KERNEL, n_calls = 0 \<rparr> (default\<Psi> []) (default\<Psi> [])
            (default\<Psi> []) None (1 / 10))) = 1"
proof -
  have c: "C (default\<Psi> []) = 1 / 2" and s: "t (default\<Psi> []) = 0"
    by (simp_all add: default\<Psi>_def mk\<Psi>_def enforce_def)
  have "0 \<le> C (default\<Psi> [])" and "C (default\<Psi> []) \<le> 1"
    by (simp_all add: c)
  from kernel_coherence_and_step [OF this] show ?thesis
    by (simp add: c s)
qed

subsection \<open>The four bounds\<close>

text \<open>
  Claim C1. Every field state produced by state construction, by the encoder (text and
  code), by the evolution kernel, by the guardian, and every final state returned by
  \<open>process\<close> has curvature in \<open>[0.01, 10]\<close>, phase in \<open>[0, 2\<pi>)\<close>, coherence in
  \<open>[0, 1]\<close> and positive energy.
\<close>

theorem field_states_bounded:
  "bounded (mk\<Psi> d k th n c i sr)
   \<and> bounded (copy s)
   \<and> (text_enc sp cat tx1 sr = Inr s1 \<longrightarrow> bounded s1)
   \<and> (code_enc sp cat cd = Inr s2 \<longrightarrow> bounded s2)
   \<and> bounded (snd (kernel_call ker \<psi> A Mi W g))
   \<and> bounded (snd (guardian_enforce gd b a L))
   \<and> (process sp cat sg eng tx code world ms = Inr er \<longrightarrow> bounded (res_output (snd er)))"
proof (intro conjI impI)
  assume "process sp cat sg eng tx code world ms = Inr er"
  from process_InrD [OF this] show "bounded (res_output (snd er))"
  proof (elim exE conjE)
    fix l c wld cur0 lp jd ec
    assume p0: "project ([l, attractor (e_memory eng), aw_field (e_awareness eng)]
                     @ (case c of None \<Rightarrow> [] | Some x \<Rightarrow> [x])
                     @ (case w_field wld of None \<Rightarrow> [] | Some w \<Rightarrow> [w])) = Inr cur0"
    and lp: "evolution_loop (nat ms) l c (w_field wld)
              \<lparr> ev_engine = eng\<lparr> e_step := e_step eng + 1,
                                   e_guardian := guardian_reset (e_guardian eng),
                                   e_world := wld \<rparr>,
                ev_current = cur0, trajectory = [], ev_locals = None \<rparr> = Inr lp"
    and ec: "(if fst (snd jd) = REBUILD
             then rebuild (w_field wld) (snd lp) ((ev_engine (snd lp))\<lparr> e_governor := fst jd \<rparr>)
             else Inr ((ev_engine (snd lp))\<lparr> e_governor := fst jd \<rparr>, ev_current (snd lp))) = Inr ec"
    and out: "res_output (snd er) = snd ec"
  have "bounded cur0" using p0 by (rule project_bounded)
  with evolution_loop_bounded [OF lp] have b: "bounded (ev_current (snd lp))" by simp
  have "bounded (snd ec)"
  proof (cases "fst (snd jd) = REBUILD")
    case True
    with ec rebuild_bounded [OF _ b] show ?thesis by simp
  next
    case False
    with ec b show ?thesis by auto
  qed
  with out show "bounded (res_output (snd er))" by simp
  qed
qed (simp_all add: mk_bounded copy_bounded text_enc_bounded code_enc_bounded kernel_bounded
      guardian_bounded)

theorem field_states_bounded_witness:
  "\<exists>s1 s2 er.
      text_enc (\<lambda>c. c = 32) (\<lambda>c. ''Ll'') [] [] = Inr s1 \<and> bounded s1
    \<and> code_enc (\<lambda>c. c = 32) (\<lambda>c. ''Ll'') [] = Inr s2 \<and> bounded s2
    \<and> process (\<lambda>c. c = 32) (\<lambda>c. ''Ll'') (\<lambda>v. ''00000000'') (ASCPI_init [] [])
          [] None None 1 = Inr er
    \<and> bounded (res_output (snd er))"
proof -
  obtain s1 where s1: "text_enc (\<lambda>c. c = 32) (\<lambda>c. ''Ll'') [] [] = Inr s1"
    using text_enc_total by blast
  obtain s2 where s2: "code_enc (\<lambda>c. c = 32) (\<lambda>c. ''Ll'') [] = Inr s2"
    using code_enc_total by blast
  have "(0::int) < 1" by simp
  from process_total [OF this ASCPI_init_ok] obtain er where
    er: "process (\<lambda>c. c = 32) (\<lambda>c. ''Ll'') (\<lambda>v. ''00000000'') (ASCPI_init [] [])
          [] None None 1 = Inr er" by blast
  from field_states_bounded [where sp = "\<lambda>c. c = 32" and cat = "\<lambda>c. ''Ll''" and ?tx1.0 = "[]"
      and sr = "[]" and ?s1.0 = s1 and cd = "[]" and ?s2.0 = s2 and sg = "\<lambda>v. ''00000000''"
      and eng = "ASCPI_init [] []" and tx = "[]" and code = None and world = None and ms = 1
      and er = er] s1 s2 er
  show ?thesis by blast
qed

subsection \<open>The encoder never raises\<close>

text \<open>
  Claim C9. For every input string, whatever the classification of its characters
  (white space, combining marks, regional indicators, zero-width joiners), the encoder
  terminates and returns a field state; it raises no exception. The same holds for the
  code variant. Termination is part of the definitions: \<open>graphemes_loop\<close>,
  \<open>extend_cluster\<close>, \<open>text_loop\<close> and \<open>count_sub\<close> are total functions.
\<close>

theorem encoder_never_raises:
  "(\<exists>s. text_enc sp cat tx sr = Inr s) \<and> (\<exists>s. code_enc sp cat tx = Inr s)"
  using text_enc_total code_enc_total by blast

subsection \<open>The governor never blocks\<close>

lemma governor_value_block: "governor_value d = ''block'' \<longleftrightarrow> d = BLOCK"
  by (cases d) simp_all

text \<open>
  Claim C10. Whenever \<open>MaatGovernor.judge\<close> returns, its decision is \<open>ALLOW\<close> or
  \<open>REBUILD\<close>, never \<open>BLOCK\<close>; so the governor field of a result of \<open>process\<close> is
  \<open>allow\<close> or \<open>rebuild\<close>, never \<open>block\<close>.
\<close>

theorem governor_never_blocks:
  "(judge gov a b W = Inr jd \<longrightarrow> fst (snd jd) \<in> {ALLOW, REBUILD} \<and> fst (snd jd) \<noteq> BLOCK)
   \<and> (process sp cat sg eng tx code world ms = Inr er \<longrightarrow>
        governor (snd er) \<in> {''allow'', ''rebuild''} \<and> governor (snd er) \<noteq> ''block'')"
proof (intro conjI impI)
  assume "judge gov a b W = Inr jd"
  from judge_decision [OF this]
  show "fst (snd jd) \<in> {ALLOW, REBUILD}" and "fst (snd jd) \<noteq> BLOCK" by auto
next
  assume "process sp cat sg eng tx code world ms = Inr er"
  from process_InrD [OF this]
  have "governor (snd er) \<in> {''allow'', ''rebuild''} \<and> governor (snd er) \<noteq> ''block''"
  proof (elim exE conjE)
    fix l :: \<Psi> and lp :: "nat \<times> evo" and wld jd
    assume j: "judge (e_governor (ev_engine (snd lp))) l (ev_current (snd lp)) (w_field wld) = Inr jd"
      and g: "governor (snd er) = governor_value (fst (snd jd))"
    from judge_decision [OF j] g show ?thesis by auto
  qed
  then show "governor (snd er) \<in> {''allow'', ''rebuild''}" and "governor (snd er) \<noteq> ''block''"
    by simp_all
qed

theorem governor_never_blocks_witness:
  "\<exists>jd er.
      judge MaatGovernor_init (default\<Psi> []) (default\<Psi> []) None = Inr jd
    \<and> fst (snd jd) \<noteq> BLOCK
    \<and> process (\<lambda>c. c = 32) (\<lambda>c. ''Ll'') (\<lambda>v. ''00000000'') (ASCPI_init [] [])
          [] None None 1 = Inr er
    \<and> governor (snd er) \<noteq> ''block''"
proof -
  have "positive (default\<Psi> [])"
    by (simp add: default\<Psi>_def bounded_positive mk_bounded)
  from judge_total [OF this, of None MaatGovernor_init "default\<Psi> []"]
  obtain jd where jd: "judge MaatGovernor_init (default\<Psi> []) (default\<Psi> []) None = Inr jd"
    by auto
  have "(0::int) < 1" by simp
  from process_total [OF this ASCPI_init_ok] obtain er where
    er: "process (\<lambda>c. c = 32) (\<lambda>c. ''Ll'') (\<lambda>v. ''00000000'') (ASCPI_init [] [])
          [] None None 1 = Inr er" by blast
  from governor_never_blocks [where gov = MaatGovernor_init and a = "default\<Psi> []"
      and b = "default\<Psi> []" and W = None and jd = jd and sp = "\<lambda>c. c = 32"
      and cat = "\<lambda>c. ''Ll''" and sg = "\<lambda>v. ''00000000''"
      and eng = "ASCPI_init [] []" and tx = "[]" and code = None and world = None and ms = 1
      and er = er] jd er
  show ?thesis by blast
qed

subsection \<open>The iteration count\<close>





subsection \<open>Encoding empty and blank input\<close>

lemma graphemes_loop_blank:
  "\<forall>c\<in>set chars. sp c \<Longrightarrow> graphemes_loop sp cat clusters [] chars = clusters"
proof (induction chars arbitrary: clusters)
  case Nil
  show ?case by simp
next
  case (Cons c chars)
  then have "sp c" and "\<forall>c\<in>set chars. sp c" by simp_all
  with Cons.IH [of clusters] show ?case by (simp only: graphemes_loop.simps if_True if_False simp_thms)
qed

lemma graphemes_blank: "\<forall>c\<in>set tx. sp c \<Longrightarrow> graphemes sp cat tx = []"
  by (simp add: graphemes_def graphemes_loop_blank)

lemma pymod_zero: "pymod 0 m = 0"
  by (simp add: pymod_def)

lemma default_fields:
  "\<Delta>\<Phi> (default\<Psi> sr) = 0" "\<kappa> (default\<Psi> sr) = 1" "\<theta> (default\<Psi> sr) = 0"
  "N (default\<Psi> sr) = 1" "C (default\<Psi> sr) = 1 / 2" "t (default\<Psi> sr) = 0"
  "src (default\<Psi> sr) = sr"
  by (simp_all add: default\<Psi>_def mk\<Psi>_def enforce_def pymod_zero \<kappa>_MIN_def \<kappa>_MAX_def \<epsilon>_def)

text \<open>Sample library parameters: ASCII white space, and every character a lower-case
  letter.\<close>

definition sp_ascii :: "nat \<Rightarrow> bool" where
  "sp_ascii c \<longleftrightarrow> c \<in> {9, 10, 11, 12, 13, 32}"

definition cat_letter :: "nat \<Rightarrow> string" where
  "cat_letter c = ''Ll''"

text \<open>
  Claim C3, as the specification states it, for the empty string: the encoder would return
  coherence 0 and the energy floor \<open>\<epsilon>\<close>. It returns the dataclass defaults instead,
  coherence 0.5 and energy 1.
\<close>

theorem empty_encoding_counterexample:
  "text_enc sp_ascii cat_letter [] (str_of ''lang'') = Inr (default\<Psi> (str_of ''lang''))
   \<and> C (default\<Psi> (str_of ''lang'')) = 1 / 2
   \<and> N (default\<Psi> (str_of ''lang'')) = 1
   \<and> \<not> (C (default\<Psi> (str_of ''lang'')) = 0 \<and> N (default\<Psi> (str_of ''lang'')) = \<epsilon>)"
  by (simp add: text_enc_def graphemes_def default_fields)

text \<open>
  Claim C3, amended. Encoding a string that is empty or consists of white space only
  returns the default state exactly: tension 0, curvature 1, phase 0, energy 1,
  coherence 0.5, step 0, and the source label that was passed.
\<close>

theorem blank_encoding_default:
  assumes "\<forall>c\<in>set tx. sp c"
  shows "text_enc sp cat tx sr = Inr (default\<Psi> sr)
         \<and> \<Delta>\<Phi> (default\<Psi> sr) = 0 \<and> \<kappa> (default\<Psi> sr) = 1 \<and> \<theta> (default\<Psi> sr) = 0
         \<and> N (default\<Psi> sr) = 1 \<and> C (default\<Psi> sr) = 1 / 2 \<and> t (default\<Psi> sr) = 0
         \<and> src (default\<Psi> sr) = sr"
  using graphemes_blank [OF assms, of cat] by (simp add: text_enc_def default_fields)

theorem blank_encoding_default_witness:
  "text_enc (\<lambda>c. c = 32) (\<lambda>c. ''Ll'') [32, 32] (str_of ''lang'') = Inr (default\<Psi> (str_of ''lang''))
   \<and> text_enc (\<lambda>c. c = 32) (\<lambda>c. ''Ll'') [] (str_of ''lang'') = Inr (default\<Psi> (str_of ''lang''))
   \<and> C (default\<Psi> (str_of ''lang'')) = 1 / 2 \<and> N (default\<Psi> (str_of ''lang'')) = 1"
  using blank_encoding_default [of "[32, 32]" "\<lambda>c. c = 32" "\<lambda>c. ''Ll''" "str_of ''lang''"]
    blank_encoding_default [of "[]" "\<lambda>c. c = 32" "\<lambda>c. ''Ll''" "str_of ''lang''"]
  by simp

subsection \<open>Memory coherence decays by at most one percent per absorption\<close>

lemma update_coherence_C:
  "C (snd (update_coherence hist fl M)) = C M
   \<or> (\<exists>x. C (snd (update_coherence hist fl M)) = max x (C M * (99 / 100)))"
proof (cases "3 \<le> length hist")
  case True
  then have "C (snd (update_coherence hist fl M))
      = max (max (order_parameter hist) (max (fl - 1 / 1000) (order_parameter hist - 5 / 100)))
            (C M * (99 / 100))"
    by (simp add: update_coherence_def Let_def)
  then show ?thesis by blast
next
  case False
  then show ?thesis by (simp add: update_coherence_def)
qed

lemma update_coherence_lower:
  assumes "0 \<le> C M"
  shows "99 / 100 * C M \<le> C (snd (update_coherence hist fl M))"
proof -
  from update_coherence_C [of hist fl M] show ?thesis
  proof
    assume "C (snd (update_coherence hist fl M)) = C M"
    with assms show ?thesis by simp
  next
    assume "\<exists>x. C (snd (update_coherence hist fl M)) = max x (C M * (99 / 100))"
    then obtain x where "C (snd (update_coherence hist fl M)) = max x (C M * (99 / 100))" ..
    moreover have "C M * (99 / 100) \<le> max x (C M * (99 / 100))" by (rule max.cobounded2)
    ultimately show ?thesis by (simp only: mult.commute)
  qed
qed

lemma absorb_C_lower:
  assumes "0 \<le> C (M_inf mem)" and "C (M_inf mem) \<le> 1"
  shows "99 / 100 * C (M_inf mem) \<le> C (M_inf (absorb mem s rate))"
proof -
  obtain M1 hist where
    m: "M_inf (absorb mem s rate) = enforce (snd (update_coherence hist (m_C_floor mem) M1))"
    and c: "C M1 = C (M_inf mem)"
    unfolding absorb_def Let_def by simp
  from assms(1) c have "99 / 100 * C (M_inf mem) \<le> C (snd (update_coherence hist (m_C_floor mem) M1))"
    using update_coherence_lower [of M1 hist "m_C_floor mem"] by simp
  with assms show ?thesis by (simp add: m enforce_C)
qed

lemma absorb_C_range: "0 \<le> C (M_inf (absorb mem s rate)) \<and> C (M_inf (absorb mem s rate)) \<le> 1"
  using absorb_bounded [of mem s rate] by (simp add: bounded_def)

text \<open>The rate that gives an observation of coherence 0.5 the absorption weight 1.\<close>

definition full_rate :: real where
  "full_rate = 1 / tanh 1"

text \<open>\<open>\<Psi>(\<theta>=th)\<close>: a default state at phase \<open>th\<close>.\<close>

definition \<Psi>_at :: "real \<Rightarrow> \<Psi>" where
  "\<Psi>_at th = mk\<Psi> 0 1 th 1 (1 / 2) 0 [936]"

definition mem1 :: MemoryField where
  "mem1 = absorb MemoryField_init (\<Psi>_at 0) full_rate"

definition mem2 :: MemoryField where
  "mem2 = absorb mem1 (\<Psi>_at pi) full_rate"

definition mem3 :: MemoryField where
  "mem3 = absorb mem2 (\<Psi>_at 0) full_rate"

lemma tanh_one_pos: "0 < tanh (1::real)"
  by simp

lemma full_weight: "tanh (C (\<Psi>_at th) * 2) * full_rate = 1"
  using tanh_one_pos by (simp add: \<Psi>_at_def mk\<Psi>_def enforce_def full_rate_def)

lemma pymod_id: "0 \<le> x \<Longrightarrow> x < m \<Longrightarrow> pymod x m = x"
proof -
  assume a: "0 \<le> x" "x < m"
  then have "\<lfloor>x / m\<rfloor> = 0" by (simp add: floor_eq_iff)
  then show ?thesis by (simp add: pymod_def)
qed

lemma Psi_at_phase: "0 \<le> th \<Longrightarrow> th < 2 * pi \<Longrightarrow> \<theta> (\<Psi>_at th) = th"
  by (simp add: \<Psi>_at_def mk\<Psi>_def enforce_def pymod_id \<tau>_def)

text \<open>With weight 1 the memory takes over the phase of the observation.\<close>

lemma absorb_history:
  "history (absorb mem s rate) =
     deque_append 100 (history mem)
       (copy ((M_inf mem)\<lparr>
          \<Delta>\<Phi> := (1 - tanh (C s * 2) * rate) * \<Delta>\<Phi> (M_inf mem) + tanh (C s * 2) * rate * \<Delta>\<Phi> s * (9 / 10),
          \<kappa> := (1 - tanh (C s * 2) * rate) * \<kappa> (M_inf mem) + tanh (C s * 2) * rate * \<kappa> s * (95 / 100),
          \<theta> := pymod (atan2 ((1 - tanh (C s * 2) * rate) * sin (\<theta> (M_inf mem)) + tanh (C s * 2) * rate * sin (\<theta> s))
                              ((1 - tanh (C s * 2) * rate) * cos (\<theta> (M_inf mem)) + tanh (C s * 2) * rate * cos (\<theta> s))) \<tau>,
          N := (1 - tanh (C s * 2) * rate) * N (M_inf mem) + tanh (C s * 2) * rate * N s \<rparr>))"
  by (simp add: absorb_def Let_def)

lemma copy_phase: "\<theta> (copy s) = pymod (\<theta> s) \<tau>"
  by (simp add: copy_def mk\<Psi>_def enforce_def)

lemma absorb_history_phase:
  assumes "tanh (C s * 2) * rate = 1" and "length (history mem) < 100"
  shows "map \<theta> (history (absorb mem s rate)) =
           map \<theta> (history mem) @ [pymod (pymod (atan2 (sin (\<theta> s)) (cos (\<theta> s))) \<tau>) \<tau>]"
  using assms(2) unfolding absorb_history assms(1)
  by (simp add: deque_append_def Let_def copy_phase)

lemma absorb_C_short:
  assumes "length (history mem) < 2"
  shows "C (M_inf (absorb mem s rate)) = max 0 (min 1 (C (M_inf mem)))"
proof -
  have "length (history (absorb mem s rate)) < 3"
    using assms unfolding absorb_history by (simp add: deque_append_def Let_def)
  then show ?thesis
    unfolding absorb_def Let_def
    by (simp add: update_coherence_def enforce_C deque_append_def)
qed


lemma absorb_floor_short:
  assumes "length (history mem) < 2"
  shows "m_C_floor (absorb mem s rate) = m_C_floor mem"
proof -
  have "length (history (absorb mem s rate)) < 3"
    using assms unfolding absorb_history by (simp add: deque_append_def Let_def)
  then show ?thesis
    unfolding absorb_def Let_def
    by (simp add: update_coherence_def deque_append_def)
qed

lemma absorb_history_length:
  "length (history mem) < 100 \<Longrightarrow> length (history (absorb mem s rate)) = Suc (length (history mem))"
  unfolding absorb_history by (simp add: deque_append_def Let_def)

lemma absorb_C_long:
  assumes "2 \<le> length (history mem)" and "length (history mem) < 100"
  shows "C (M_inf (absorb mem s rate)) =
           max 0 (min 1 (max (max (order_parameter (history (absorb mem s rate)))
                                  (max (m_C_floor mem - 1 / 1000)
                                       (order_parameter (history (absorb mem s rate)) - 5 / 100)))
                             (C (M_inf mem) * (99 / 100))))"
proof -
  have l: "3 \<le> length (history (absorb mem s rate))"
    using assms by (simp add: absorb_history_length)
  show ?thesis
    unfolding absorb_history
    using l [unfolded absorb_history]
    by (simp add: absorb_def Let_def update_coherence_def enforce_C)
qed

lemma order_parameter_phases:
  "order_parameter hist =
     sqrt ((sum_list (map sin (map \<theta> hist))) ^ 2 + (sum_list (map cos (map \<theta> hist))) ^ 2)
       / real (length (map \<theta> hist))"
  by (simp add: order_parameter_def Let_def)

lemma init_facts:
  "history MemoryField_init = []" "m_C_floor MemoryField_init = 0"
  "C (M_inf MemoryField_init) = 1 / 2"
  by (simp_all add: MemoryField_init_def mk\<Psi>_def enforce_def)

lemma phase_zero: "pymod (pymod (atan2 0 1) \<tau>) \<tau> = 0"
  by (simp add: atan2_def pymod_zero)

lemma phase_pi: "pymod (pymod (atan2 0 (- 1)) \<tau>) \<tau> = pi"
  by (simp add: atan2_def pymod_id \<tau>_def)

lemma mem1_facts:
  "map \<theta> (history mem1) = [0]" "m_C_floor mem1 = 0" "C (M_inf mem1) = 1 / 2"
  using absorb_history_phase [OF full_weight, of MemoryField_init 0]
    absorb_floor_short [of MemoryField_init "\<Psi>_at 0" full_rate]
    absorb_C_short [of MemoryField_init "\<Psi>_at 0" full_rate]
  by (simp_all add: mem1_def init_facts Psi_at_phase phase_zero)

lemma mem1_length: "length (history mem1) = 1"
  using arg_cong [OF mem1_facts(1), of length] by simp

lemma mem2_facts:
  "map \<theta> (history mem2) = [0, pi]" "m_C_floor mem2 = 0" "C (M_inf mem2) = 1 / 2"
  using absorb_history_phase [OF full_weight, of mem1 pi]
    absorb_floor_short [of mem1 "\<Psi>_at pi" full_rate]
    absorb_C_short [of mem1 "\<Psi>_at pi" full_rate]
  by (simp_all add: mem2_def mem1_facts mem1_length Psi_at_phase phase_pi)

lemma mem2_length: "length (history mem2) = 2"
  using arg_cong [OF mem2_facts(1), of length] by simp

lemma mem3_phases: "map \<theta> (history mem3) = [0, pi, 0]"
  using absorb_history_phase [OF full_weight, of mem2 0]
  by (simp add: mem3_def mem2_facts mem2_length Psi_at_phase phase_zero)

lemma mem3_order: "order_parameter (history mem3) = 1 / 3"
  by (simp add: order_parameter_phases mem3_phases)

lemma mem3_C: "C (M_inf mem3) = 99 / 200"
  using absorb_C_long [of mem2 "\<Psi>_at 0" full_rate] mem3_order
  by (simp add: mem3_def [symmetric] mem2_length mem2_facts)

text \<open>
  Claim C4, as the specification states it, with the declared \<open>\<epsilon>\<close> of INV-1 (and also
  with the decay 0.001 of the coherence floor): three consecutive absorptions into a fresh
  memory, of default states at the phases 0, \<open>\<pi>\<close> and 0 with the rate \<open>1 / tanh 1\<close>, leave
  the reported coherence at 0.5 after the second and at 0.495 after the third.
\<close>

theorem absorb_declared_epsilon_counterexample:
  "mem3 = absorb (absorb (absorb MemoryField_init (\<Psi>_at 0) full_rate) (\<Psi>_at pi) full_rate)
            (\<Psi>_at 0) full_rate
   \<and> C (M_inf mem2) = 1 / 2
   \<and> C (M_inf mem3) = 99 / 200
   \<and> \<not> (C (M_inf mem2) - \<epsilon> \<le> C (M_inf mem3))
   \<and> \<not> (C (M_inf mem2) - 1 / 1000 \<le> C (M_inf mem3))"
  by (simp add: mem3_C mem2_facts \<epsilon>_def) (simp add: mem3_def mem2_def mem1_def)

text \<open>
  Claim C4, amended. For consecutive calls of \<open>MemoryField.absorb\<close>, with any
  observations and rates, the coherence the memory reports after an absorption is at
  least 99 percent of the coherence it reported after the previous one, hence at least
  that coherence minus the allowance 0.01.
\<close>

theorem absorb_coherence_tolerance:
  "99 / 100 * C (M_inf (absorb mem s1 r1)) \<le> C (M_inf (absorb (absorb mem s1 r1) s2 r2))
   \<and> C (M_inf (absorb mem s1 r1)) - 1 / 100 \<le> C (M_inf (absorb (absorb mem s1 r1) s2 r2))"
proof -
  have r: "0 \<le> C (M_inf (absorb mem s1 r1))" "C (M_inf (absorb mem s1 r1)) \<le> 1"
    using absorb_C_range [of mem s1 r1] by simp_all
  from absorb_C_lower [OF r, of s2 r2] r show ?thesis by simp
qed

subsection \<open>The guardian keeps the energy within the tolerance band\<close>

lemma enforce_N: "N (enforce s) = max \<epsilon> (N s)"
  by (simp add: enforce_def)

lemma copy_N: "N (copy s) = max \<epsilon> (N s)"
  by (simp add: copy_def mk\<Psi>_def enforce_N)

lemma blend_N: "N (blend s s2 a) = max \<epsilon> (a * N s + (1 - a) * N s2)"
  by (simp add: blend_def Let_def mk\<Psi>_def enforce_N)

lemma inv4_phase_N: "N (inv4_phase b r) = N r"
  by (simp add: inv4_phase_def Let_def)

lemma inv3_energy_N:
  "N (inv3_energy b r) =
     (if \<epsilon> < N b \<and> \<bar>N r / N b - 1\<bar> > 2 / 10
      then N b * (if N r / N b > 1 then 12 / 10 else 8 / 10) else N r)"
  by (simp add: inv3_energy_def Let_def ENERGY_\<delta>_def)

lemma inv3_energy_range:
  assumes "\<epsilon> < N b" and "0 < N r"
  shows "8 / 10 * N b \<le> N (inv3_energy b r) \<and> N (inv3_energy b r) \<le> 12 / 10 * N b"
proof -
  from assms(1) eps_pos have nb: "0 < N b" by linarith
  show ?thesis
  proof (cases "\<bar>N r / N b - 1\<bar> > 2 / 10")
    case True
    with assms nb show ?thesis by (simp add: inv3_energy_N)
  next
    case False
    then have "8 / 10 \<le> N r / N b" and "N r / N b \<le> 12 / 10" by linarith+
    with nb have "8 / 10 * N b \<le> N r" and "N r \<le> 12 / 10 * N b"
      by (simp_all add: pos_le_divide_eq pos_divide_le_eq)
    with False show ?thesis by (simp add: inv3_energy_N)
  qed
qed

lemma guardian_N:
  "N (snd (guardian_enforce g b a L)) =
     max \<epsilon> (if maat_worse g L
            then max \<epsilon> (7 / 10 * N b + (1 - 7 / 10) * N (inv3_energy b
                   (copy a\<lparr> C := max (C (copy a)) (max (max 0 (g_C_floor g - 2 / 1000)) (C b - 1 / 10)),
                            \<kappa> := max \<kappa>_MIN (min \<kappa>_MAX (\<kappa> (copy a))) \<rparr>)))
            else N (inv3_energy b
                   (copy a\<lparr> C := max (C (copy a)) (max (max 0 (g_C_floor g - 2 / 1000)) (C b - 1 / 10)),
                            \<kappa> := max \<kappa>_MIN (min \<kappa>_MAX (\<kappa> (copy a))) \<rparr>)))"
  by (simp add: guardian_enforce_def Let_def enforce_N blend_N inv4_phase_N)


lemma ratio_band:
  assumes "0 < (nb::real)" and "8 / 10 * nb \<le> x" and "x \<le> 12 / 10 * nb"
  shows "\<bar>x / nb - 1\<bar> \<le> 2 / 10"
proof -
  from assms have "8 / 10 \<le> x / nb" and "x / nb \<le> 12 / 10"
    by (simp_all add: pos_le_divide_eq pos_divide_le_eq)
  then show ?thesis by linarith
qed

lemma guardian_N_range:
  assumes "\<epsilon> < N b"
  shows "8 / 10 * N b \<le> N (snd (guardian_enforce g b a L))
         \<and> N (snd (guardian_enforce g b a L)) \<le> 12 / 10 * N b"
proof -
  define r2 where "r2 = copy a\<lparr> C := max (C (copy a)) (max (max 0 (g_C_floor g - 2 / 1000)) (C b - 1 / 10)),
                            \<kappa> := max \<kappa>_MIN (min \<kappa>_MAX (\<kappa> (copy a))) \<rparr>"
  define X where "X = N (inv3_energy b r2)"
  have "0 < N r2" using eps_pos by (simp add: r2_def copy_N max_def)
  from inv3_energy_range [OF assms this] have X: "8 / 10 * N b \<le> X" "X \<le> 12 / 10 * N b"
    by (simp_all add: X_def)
  from assms eps_pos have nb: "0 < N b" by linarith
  have "N (snd (guardian_enforce g b a L)) =
          max \<epsilon> (if maat_worse g L then max \<epsilon> (7 / 10 * N b + (1 - 7 / 10) * X) else X)"
    unfolding X_def r2_def by (rule guardian_N)
  with X assms nb show ?thesis by (auto simp: max_def)
qed

text \<open>Over the reals the energy returned stays within the band; the rounding of the float
  product \<open>N * (1 + 0.2)\<close> is outside this model.\<close>

lemma guardian_ratio_real:
  assumes "\<epsilon> < N b"
  shows "\<bar>N (snd (guardian_enforce g b a L)) / N b - 1\<bar> \<le> 2 / 10"
proof -
  from assms eps_pos have nb: "0 < N b" by linarith
  from guardian_N_range [OF assms, of g a L] nb show ?thesis
    by (intro ratio_band) simp_all
qed

lemma inv3_energy_N_cong: "N r = N r' \<Longrightarrow> N (inv3_energy b r) = N (inv3_energy b r')"
  by (simp add: inv3_energy_N)

lemma guardian_N_copy:
  "N (snd (guardian_enforce g b a L)) =
     max \<epsilon> (if maat_worse g L then 7 / 10 * N b + 3 / 10 * N (inv3_energy b (copy a))
            else N (inv3_energy b (copy a)))"
proof -
  have "N (inv3_energy b
          (copy a\<lparr> C := max (C (copy a)) (max (max 0 (g_C_floor g - 2 / 1000)) (C b - 1 / 10)),
                   \<kappa> := max \<kappa>_MIN (min \<kappa>_MAX (\<kappa> (copy a))) \<rparr>))
        = N (inv3_energy b (copy a))"
    by (rule inv3_energy_N_cong) simp
  then show ?thesis by (simp add: guardian_N)
qed

text \<open>The guardian after a first call \<open>enforce(\<Psi>(), \<Psi>(), 1.0)\<close>: its previous loss is 1.\<close>

definition guardian_after_loss_1 :: InvariantGuardian where
  "guardian_after_loss_1 =
     fst (guardian_enforce InvariantGuardian_init (default\<Psi> []) (default\<Psi> []) 1)"

lemma guardian_after_loss_1_prev: "L_prev guardian_after_loss_1 = Some 1"
  by (simp add: guardian_after_loss_1_def guardian_enforce_def Let_def)

text \<open>
  Claim C7, as the specification states it: the energy of an after-state that deviates by
  more than the tolerance would come back at the boundary of the band. A guardian whose
  first call saw the loss 1, then before-energy 1, after-energy 2 and loss 2: the Ma'at
  blend fires after the rescaling and the guardian returns the energy 1.06, neither 1.2
  nor 0.8.
\<close>

theorem guardian_blend_counterexample:
  "\<epsilon> < N (default\<Psi> [])
   \<and> \<bar>N (copy ((default\<Psi> [])\<lparr> N := 2 \<rparr>)) / N (default\<Psi> []) - 1\<bar> > 2 / 10
   \<and> N (snd (guardian_enforce guardian_after_loss_1 (default\<Psi> [])
              ((default\<Psi> [])\<lparr> N := 2 \<rparr>) 2)) = 106 / 100
   \<and> N (snd (guardian_enforce guardian_after_loss_1 (default\<Psi> [])
              ((default\<Psi> [])\<lparr> N := 2 \<rparr>) 2)) \<noteq> N (default\<Psi> []) * (1 + 2 / 10)
   \<and> N (snd (guardian_enforce guardian_after_loss_1 (default\<Psi> [])
              ((default\<Psi> [])\<lparr> N := 2 \<rparr>) 2)) \<noteq> N (default\<Psi> []) * (1 - 2 / 10)"
proof -
  have m: "maat_worse guardian_after_loss_1 2"
    by (simp add: maat_worse_def guardian_after_loss_1_prev)
  have c: "N (copy ((default\<Psi> [])\<lparr> N := 2 \<rparr>)) = 2" by (simp add: copy_N \<epsilon>_def)
  have "N (snd (guardian_enforce guardian_after_loss_1 (default\<Psi> [])
              ((default\<Psi> [])\<lparr> N := 2 \<rparr>) 2)) = 106 / 100"
    by (simp add: guardian_N_copy m inv3_energy_N c default_fields \<epsilon>_def)
  then show ?thesis by (simp add: c default_fields \<epsilon>_def)
qed

text \<open>
  Claim C7, amended. For a before-state with energy above \<open>\<epsilon>\<close>, any after-state and any
  loss: the energy step (INV-3) of the guardian replaces an energy whose ratio to the
  before-energy deviates from 1 by more than the tolerance 0.2 by the before-energy times
  \<open>1 + 0.2\<close> or \<open>1 - 0.2\<close>, and leaves any other energy as it is. The state returned has
  the energy of that step (applied to the copied after-state), floored at \<open>\<epsilon>\<close>, when the
  Ma'at blend does not fire; when it fires (the loss exceeds 1.3 times the previous loss)
  the state returned has 0.7 times the before-energy plus 0.3 times the energy of that
  step, floored at \<open>\<epsilon>\<close>.
\<close>

theorem guardian_energy_rescale:
  assumes "\<epsilon> < N b"
  shows "ENERGY_\<delta> = 2 / 10
         \<and> (\<bar>N r / N b - 1\<bar> > 2 / 10 \<longrightarrow>
              N (inv3_energy b r) = N b * (if N r / N b > 1 then 1 + 2 / 10 else 1 - 2 / 10))
         \<and> (\<bar>N r / N b - 1\<bar> \<le> 2 / 10 \<longrightarrow> N (inv3_energy b r) = N r)
         \<and> (\<not> maat_worse g L \<longrightarrow>
              N (snd (guardian_enforce g b a L)) = max \<epsilon> (N (inv3_energy b (copy a))))
         \<and> (maat_worse g L \<longrightarrow>
              N (snd (guardian_enforce g b a L))
                = max \<epsilon> (7 / 10 * N b + 3 / 10 * N (inv3_energy b (copy a))))"
  using assms by (simp add: ENERGY_\<delta>_def inv3_energy_N guardian_N_copy)

theorem guardian_energy_rescale_witness:
  "\<epsilon> < N (default\<Psi> [])
   \<and> N (inv3_energy (default\<Psi> []) (copy ((default\<Psi> [])\<lparr> N := 2 \<rparr>))) = 12 / 10
   \<and> N (snd (guardian_enforce InvariantGuardian_init (default\<Psi> [])
              ((default\<Psi> [])\<lparr> N := 2 \<rparr>) 0)) = 12 / 10
   \<and> N (snd (guardian_enforce guardian_after_loss_1 (default\<Psi> [])
              ((default\<Psi> [])\<lparr> N := 2 \<rparr>) 2)) = 106 / 100"
proof -
  have e: "\<epsilon> < N (default\<Psi> [])" by (simp add: default_fields \<epsilon>_def)
  have m0: "\<not> maat_worse InvariantGuardian_init 0"
    by (simp add: maat_worse_def InvariantGuardian_init_def)
  have m1: "maat_worse guardian_after_loss_1 2"
    by (simp add: maat_worse_def guardian_after_loss_1_prev)
  have c: "N (copy ((default\<Psi> [])\<lparr> N := 2 \<rparr>)) = 2" by (simp add: copy_N \<epsilon>_def)
  have d: "\<bar>N (copy ((default\<Psi> [])\<lparr> N := 2 \<rparr>)) / N (default\<Psi> []) - 1\<bar> > 2 / 10"
    by (simp add: c default_fields)
  from guardian_energy_rescale [OF e, of "copy ((default\<Psi> [])\<lparr> N := 2 \<rparr>)"
      InvariantGuardian_init 0 "(default\<Psi> [])\<lparr> N := 2 \<rparr>"] d m0
  have 1: "N (inv3_energy (default\<Psi> []) (copy ((default\<Psi> [])\<lparr> N := 2 \<rparr>))) = 12 / 10"
    and 2: "N (snd (guardian_enforce InvariantGuardian_init (default\<Psi> [])
              ((default\<Psi> [])\<lparr> N := 2 \<rparr>) 0)) = 12 / 10"
    by (simp_all add: c default_fields \<epsilon>_def)
  from guardian_energy_rescale [OF e, of "copy ((default\<Psi> [])\<lparr> N := 2 \<rparr>)"
      guardian_after_loss_1 2 "(default\<Psi> [])\<lparr> N := 2 \<rparr>"] d m1
  have 3: "N (snd (guardian_enforce guardian_after_loss_1 (default\<Psi> [])
              ((default\<Psi> [])\<lparr> N := 2 \<rparr>) 2)) = 106 / 100"
    by (simp add: c default_fields \<epsilon>_def)
  from e 1 2 3 show ?thesis by simp
qed

subsection \<open>Determinism\<close>

























subsection \<open>Phase continuity\<close>

text \<open>The wrapped difference of two phases in \<open>[0, 2\<pi>)\<close>, as \<open>\<Psi>.dist\<close> and the guardian
  compute it.\<close>

definition phase_diff :: "real \<Rightarrow> real \<Rightarrow> real" where
  "phase_diff a b = min \<bar>a - b\<bar> (\<tau> - \<bar>a - b\<bar>)"

lemma pymod_shift: "\<exists>k::int. pymod x \<tau> = x - (2 * pi) * of_int k"
  by (auto simp: pymod_def \<tau>_def)

lemma cos_shift: "cos (x - (2 * pi) * of_int k) = cos x"
  by (simp add: cos_diff)

lemma sin_shift: "sin (x - (2 * pi) * of_int k) = sin x"
  by (simp add: sin_diff)

lemma cos_pymod_diff: "cos (pymod x \<tau> - y) = cos (x - y)"
proof -
  obtain k :: int where "pymod x \<tau> = x - (2 * pi) * of_int k" using pymod_shift by blast
  then have "pymod x \<tau> - y = (x - y) - (2 * pi) * of_int k" by simp
  then show ?thesis by (simp only: cos_shift)
qed

lemma sin_pymod_diff: "sin (pymod x \<tau> - y) = sin (x - y)"
proof -
  obtain k :: int where "pymod x \<tau> = x - (2 * pi) * of_int k" using pymod_shift by blast
  then have "pymod x \<tau> - y = (x - y) - (2 * pi) * of_int k" by simp
  then show ?thesis by (simp only: sin_shift)
qed

lemma cos_pymod: "cos (pymod x \<tau>) = cos x"
  using cos_pymod_diff [of x 0] by simp

lemma sin_pymod: "sin (pymod x \<tau>) = sin x"
  using sin_pymod_diff [of x 0] by simp

lemma pymod_pymod: "pymod (pymod x \<tau>) \<tau> = pymod x \<tau>"
  using pymod_range [OF tau_pos, of x] by (simp add: pymod_id)

lemma cos_nonneg_half_pi:
  assumes "0 \<le> x" and "x \<le> pi" and "0 \<le> cos x"
  shows "x \<le> pi / 2"
proof (rule ccontr)
  assume "\<not> x \<le> pi / 2"
  then have "pi / 2 < x" by simp
  from cos_monotone_0_pi [OF _ this assms(2)] have "cos x < cos (pi / 2)" by simp
  with assms(3) show False by simp
qed

lemma phase_diff_alt:
  "phase_diff a b = (if \<bar>a - b\<bar> > pi then \<tau> - \<bar>a - b\<bar> else \<bar>a - b\<bar>)"
  by (simp add: phase_diff_def \<tau>_def min_def)

lemma phase_diff_cos:
  assumes "0 \<le> a" "a < \<tau>" "0 \<le> b" "b < \<tau>"
  shows "phase_diff a b \<le> pi / 2 \<longleftrightarrow> 0 \<le> cos (a - b)"
proof -
  let ?d = "\<bar>a - b\<bar>"
  have d: "0 \<le> ?d" "?d < 2 * pi" using assms by (auto simp: \<tau>_def)
  have c: "cos (a - b) = cos ?d" by (simp add: abs_if) (metis cos_minus minus_diff_eq)
  show ?thesis
  proof (cases "?d > pi")
    case True
    then have p: "phase_diff a b = 2 * pi - ?d" by (simp add: phase_diff_alt \<tau>_def)
    have c2: "cos (2 * pi - ?d) = cos ?d" by (rule cos_2pi_minus)
    have r: "0 \<le> 2 * pi - ?d" "2 * pi - ?d \<le> pi" using True d by simp_all
    show ?thesis
    proof
      assume "phase_diff a b \<le> pi / 2"
      with p r have "0 \<le> cos (2 * pi - ?d)" by (intro cos_ge_zero) simp_all
      with c c2 show "0 \<le> cos (a - b)" by simp
    next
      assume "0 \<le> cos (a - b)"
      with c c2 have "0 \<le> cos (2 * pi - ?d)" by simp
      from cos_nonneg_half_pi [OF r this] p show "phase_diff a b \<le> pi / 2" by simp
    qed
  next
    case False
    then have p: "phase_diff a b = ?d" by (simp add: phase_diff_alt)
    from False have r: "?d \<le> pi" by simp
    show ?thesis
    proof
      assume "phase_diff a b \<le> pi / 2"
      with p d have "0 \<le> cos ?d" by (intro cos_ge_zero) simp_all
      with c show "0 \<le> cos (a - b)" by simp
    next
      assume "0 \<le> cos (a - b)"
      with c have "0 \<le> cos ?d" by simp
      from cos_nonneg_half_pi [OF d(1) r this] p show "phase_diff a b \<le> pi / 2" by simp
    qed
  qed
qed

lemma atan2_cos_sin:
  assumes "x \<noteq> 0 \<or> y \<noteq> 0"
  shows "cos (atan2 y x) = x / sqrt (x\<^sup>2 + y\<^sup>2) \<and> sin (atan2 y x) = y / sqrt (x\<^sup>2 + y\<^sup>2)"
proof -
  have root: "sqrt (1 + (y / x)\<^sup>2) = sqrt (x\<^sup>2 + y\<^sup>2) / \<bar>x\<bar>" if "x \<noteq> 0"
  proof -
    have "1 + (y / x)\<^sup>2 = (x\<^sup>2 + y\<^sup>2) / x\<^sup>2"
      using that by (simp add: field_simps power2_eq_square)
    then show ?thesis by (simp add: real_sqrt_divide)
  qed
  consider "0 < x" | "x < 0" "0 \<le> y" | "x < 0" "y < 0" | "x = 0" "0 < y" | "x = 0" "y < 0"
    using assms by linarith
  then show ?thesis
  proof cases
    case 1
    then show ?thesis by (simp add: atan2_def cos_arctan sin_arctan root)
  next
    case 2
    then show ?thesis by (simp add: atan2_def cos_arctan sin_arctan root)
  next
    case 3
    then show ?thesis by (simp add: atan2_def cos_arctan sin_arctan root)
  next
    case 4
    then show ?thesis by (simp add: atan2_def)
  next
    case 5
    then show ?thesis by (simp add: atan2_def)
  qed
qed

lemma enforce_phase: "\<theta> (enforce s) = pymod (\<theta> s) \<tau>"
  by (simp add: enforce_def)

lemma pymod_sub_period: "pymod (y - \<tau> * of_int k) \<tau> = pymod y \<tau>"
proof -
  have "(y - \<tau> * of_int k) / \<tau> = y / \<tau> - of_int k"
    using tau_pos by (simp add: field_simps)
  then have "\<lfloor>(y - \<tau> * of_int k) / \<tau>\<rfloor> = \<lfloor>y / \<tau>\<rfloor> - k"
    by simp
  then have "pymod (y - \<tau> * of_int k) \<tau> = y - \<tau> * of_int k - \<tau> * of_int (\<lfloor>y / \<tau>\<rfloor> - k)"
    by (simp only: pymod_def)
  also have "\<dots> = y - \<tau> * of_int \<lfloor>y / \<tau>\<rfloor>"
    by (simp add: algebra_simps)
  finally show ?thesis by (simp only: pymod_def)
qed

lemma pymod_add_left: "pymod (pymod x \<tau> + c) \<tau> = pymod (x + c) \<tau>"
proof -
  have "pymod x \<tau> + c = (x + c) - \<tau> * of_int \<lfloor>x / \<tau>\<rfloor>"
    by (simp add: pymod_def)
  then show ?thesis by (simp only: pymod_sub_period)
qed

lemma clamp_shift:
  "\<bar>max (- PHASE_MAX) (min PHASE_MAX (K * sin x))\<bar> \<le> pi / 2
   \<and> \<bar>max (- PHASE_MAX) (min PHASE_MAX (K * sin x))\<bar> \<le> \<bar>K\<bar>"
proof -
  have "\<bar>K * sin x\<bar> \<le> \<bar>K\<bar> * 1"
    unfolding abs_mult by (rule mult_left_mono) simp_all
  then have "\<bar>K * sin x\<bar> \<le> \<bar>K\<bar>" by simp
  then show ?thesis by (auto simp: PHASE_MAX_def max_def min_def abs_if split: if_splits)
qed

lemma kernel_phase_form:
  "\<exists>x. \<theta> (snd (kernel_call ker s A Mi W g))
        = pymod (\<theta> s + max (- PHASE_MAX) (min PHASE_MAX (k_K (p ker) * sin x))) \<tau>"
  unfolding kernel_call_def Let_def
  by (auto simp: mk\<Psi>_def enforce_phase pymod_pymod intro!: exI)

lemma kernel_phase:
  "\<exists>sh. \<bar>sh\<bar> \<le> pi / 2 \<and> \<bar>sh\<bar> \<le> \<bar>k_K (p ker)\<bar>
        \<and> \<theta> (snd (kernel_call ker s A Mi W g)) = pymod (\<theta> s + sh) \<tau>"
  using kernel_phase_form [of ker s A Mi W g] clamp_shift by blast

lemma evolve_Inr_form:
  assumes "dist s M = Inr d" and "inner s M = Inr al"
  shows "\<exists>F aw'. evolve aw s M W =
           Inr (aw', if C (enforce F) > 3 / 10
                     then (copy s)\<lparr> \<theta> := pymod (\<theta> (copy s)
                                + (1 / 10) * C (enforce F) * sin (\<theta> M - \<theta> s)) \<tau> \<rparr>
                     else copy s)"
  unfolding evolve_def Let_def
  apply (simp only: assms bindE_simps)
  apply (rule exI, rule exI, rule refl)
  done

lemma evolve_phase_form:
  assumes "evolve aw s M W = Inr r"
  shows "\<exists>F. snd r = (if C (enforce F) > 3 / 10
                      then (copy s)\<lparr> \<theta> := pymod (\<theta> (copy s)
                                + (1 / 10) * C (enforce F) * sin (\<theta> M - \<theta> s)) \<tau> \<rparr>
                      else copy s)"
proof -
  obtain d where d: "dist s M = Inr d"
  proof (cases "dist s M")
    case (Inl e)
    then have "evolve aw s M W = Inl e"
      unfolding evolve_def by (simp only: bindE_simps)
    with assms show ?thesis by simp
  next
    case (Inr d)
    then show ?thesis by (rule that)
  qed
  obtain al where al: "inner s M = Inr al"
  proof (cases "inner s M")
    case (Inl e)
    then have "evolve aw s M W = Inl e"
      unfolding evolve_def by (simp only: d bindE_simps)
    with assms show ?thesis by simp
  next
    case (Inr al)
    then show ?thesis by (rule that)
  qed
  from evolve_Inr_form [OF d al, of aw W] assms show ?thesis by auto
qed

lemma evolve_phase:
  assumes "evolve aw s M W = Inr r"
  shows "\<exists>c. \<bar>c\<bar> \<le> 1 / 10 \<and> \<theta> (snd r) = pymod (\<theta> s + c) \<tau>"
proof -
  from evolve_phase_form [OF assms] obtain F where
    r: "snd r = (if C (enforce F) > 3 / 10
                      then (copy s)\<lparr> \<theta> := pymod (\<theta> (copy s)
                                + (1 / 10) * C (enforce F) * sin (\<theta> M - \<theta> s)) \<tau> \<rparr>
                      else copy s)" ..
  have cf: "0 \<le> C (enforce F)" "C (enforce F) \<le> 1"
    using enforce_bounded [of F] by (simp_all add: bounded_def)
  show ?thesis
  proof (cases "C (enforce F) > 3 / 10")
    case True
    let ?c = "(1 / 10) * C (enforce F) * sin (\<theta> M - \<theta> s)"
    have "\<bar>?c\<bar> = (1 / 10) * (C (enforce F) * \<bar>sin (\<theta> M - \<theta> s)\<bar>)"
      using cf by (simp add: abs_mult)
    also have "\<dots> \<le> (1 / 10) * (1 * 1)"
      using cf by (intro mult_left_mono mult_mono) simp_all
    finally have "\<bar>?c\<bar> \<le> 1 / 10" by simp
    moreover have "\<theta> (snd r) = pymod (\<theta> s + ?c) \<tau>"
      using True r by (simp add: copy_phase pymod_add_left)
    ultimately show ?thesis by blast
  next
    case False
    with r have "\<theta> (snd r) = pymod (\<theta> s + 0) \<tau>" by (simp add: copy_phase)
    then show ?thesis by (intro exI [of _ 0]) simp
  qed
qed

text \<open>The phase after INV-4, and after the whole of \<open>InvariantGuardian.enforce\<close>.\<close>

lemma inv4_phase_theta:
  "\<theta> (inv4_phase b r) =
     (if phase_diff (\<theta> r) (\<theta> b) > PHASE_MAX
      then pymod (\<theta> b + (if \<theta> r > \<theta> b then 1 else - 1) * PHASE_MAX) \<tau>
      else \<theta> r)"
  by (simp add: inv4_phase_def phase_diff_alt Let_def)

lemma inv3_energy_theta: "\<theta> (inv3_energy b r) = \<theta> r"
  by (simp add: inv3_energy_def Let_def)

lemma mk_phase: "\<theta> (mk\<Psi> d k th n c tt sr) = pymod th \<tau>"
  by (simp add: mk\<Psi>_def enforce_phase)

lemma blend_phase:
  "\<theta> (blend s s2 a) =
     pymod (atan2 (a * sin (\<theta> s) + (1 - a) * sin (\<theta> s2))
                  (a * cos (\<theta> s) + (1 - a) * cos (\<theta> s2))) \<tau>"
  by (simp add: blend_def Let_def enforce_phase mk_phase pymod_pymod)

lemma guardian_phase_form:
  "\<theta> (snd (guardian_enforce g b a L)) =
     (let \<theta>3 = pymod (\<theta> a) \<tau>;
          \<theta>4 = (if phase_diff \<theta>3 (\<theta> b) > PHASE_MAX
                then pymod (\<theta> b + (if \<theta>3 > \<theta> b then 1 else - 1) * PHASE_MAX) \<tau>
                else \<theta>3)
      in if maat_worse g L
         then pymod (atan2 (7 / 10 * sin (\<theta> b) + 3 / 10 * sin \<theta>4)
                           (7 / 10 * cos (\<theta> b) + 3 / 10 * cos \<theta>4)) \<tau>
         else \<theta>4)"
  by (simp add: guardian_enforce_def Let_def enforce_phase blend_phase inv4_phase_theta
      inv3_energy_theta copy_phase pymod_pymod)

end
